theory Spec2Isabelle
  imports Complex_Main "HOL-Library.Sublist"
begin

section \<open>Values\<close>

text \<open>
  A Python float is one of: a finite number, \<open>+inf\<close>, \<open>-inf\<close>, \<open>nan\<close>. The special values
  and the comparisons follow IEEE 754 as Python and numpy expose them. Arithmetic on two
  finite numbers is exact here (no rounding, no overflow, no underflow): the finite part
  is the real line.
\<close>

datatype pyfloat = Fin real | PInf | NInf | NaN

datatype py_error = ValueError | KeyError | TypeError | IndexError | HttpError

fun isnan :: "pyfloat \<Rightarrow> bool" where
  "isnan NaN = True"
| "isnan _ = False"

text \<open>\<open>a < b\<close> on floats; every comparison with \<open>nan\<close> is false.\<close>

fun flt :: "pyfloat \<Rightarrow> pyfloat \<Rightarrow> bool" where
  "flt (Fin a) (Fin b) = (a < b)"
| "flt NaN _ = False"
| "flt _ NaN = False"
| "flt PInf _ = False"
| "flt _ NInf = False"
| "flt _ PInf = True"
| "flt NInf _ = True"

text \<open>\<open>a <= b\<close> on floats.\<close>

fun fle :: "pyfloat \<Rightarrow> pyfloat \<Rightarrow> bool" where
  "fle (Fin a) (Fin b) = (a \<le> b)"
| "fle NaN _ = False"
| "fle _ NaN = False"
| "fle NInf _ = True"
| "fle _ PInf = True"
| "fle PInf _ = False"
| "fle _ NInf = False"

text \<open>\<open>a > b\<close> is \<open>b < a\<close>.\<close>

definition fgt :: "pyfloat \<Rightarrow> pyfloat \<Rightarrow> bool" where
  "fgt a b = flt b a"

fun fneg :: "pyfloat \<Rightarrow> pyfloat" where
  "fneg (Fin a) = Fin (- a)"
| "fneg PInf = NInf"
| "fneg NInf = PInf"
| "fneg NaN = NaN"

fun fadd :: "pyfloat \<Rightarrow> pyfloat \<Rightarrow> pyfloat" where
  "fadd (Fin a) (Fin b) = Fin (a + b)"
| "fadd NaN _ = NaN"
| "fadd _ NaN = NaN"
| "fadd PInf NInf = NaN"
| "fadd NInf PInf = NaN"
| "fadd PInf _ = PInf"
| "fadd NInf _ = NInf"
| "fadd _ PInf = PInf"
| "fadd _ NInf = NInf"

definition fsub :: "pyfloat \<Rightarrow> pyfloat \<Rightarrow> pyfloat" where
  "fsub a b = fadd a (fneg b)"

fun fabs :: "pyfloat \<Rightarrow> pyfloat" where
  "fabs (Fin a) = Fin \<bar>a\<bar>"
| "fabs PInf = PInf"
| "fabs NInf = PInf"
| "fabs NaN = NaN"

fun fexp :: "pyfloat \<Rightarrow> pyfloat" where
  "fexp (Fin a) = Fin (exp a)"
| "fexp PInf = PInf"
| "fexp NInf = Fin 0"
| "fexp NaN = NaN"

text \<open>
  numpy's true division of floats: dividing by zero gives an infinity or \<open>nan\<close> (with a
  warning), it does not raise.
\<close>

fun fdiv :: "pyfloat \<Rightarrow> pyfloat \<Rightarrow> pyfloat" where
  "fdiv NaN _ = NaN"
| "fdiv _ NaN = NaN"
| "fdiv (Fin a) (Fin b) =
     (if b \<noteq> 0 then Fin (a / b)
      else if 0 < a then PInf else if a < 0 then NInf else NaN)"
| "fdiv (Fin a) PInf = Fin 0"
| "fdiv (Fin a) NInf = Fin 0"
| "fdiv PInf (Fin b) = (if 0 \<le> b then PInf else NInf)"
| "fdiv NInf (Fin b) = (if 0 \<le> b then NInf else PInf)"
| "fdiv PInf _ = NaN"
| "fdiv NInf _ = NaN"

fun fsgn :: "pyfloat \<Rightarrow> int" where
  "fsgn (Fin a) = (if 0 < a then 1 else if a < 0 then - 1 else 0)"
| "fsgn PInf = 1"
| "fsgn NInf = - 1"
| "fsgn NaN = 0"

fun fmul :: "pyfloat \<Rightarrow> pyfloat \<Rightarrow> pyfloat" where
  "fmul (Fin a) (Fin b) = Fin (a * b)"
| "fmul NaN _ = NaN"
| "fmul _ NaN = NaN"
| "fmul x y =
     (if 0 < fsgn x * fsgn y then PInf else if fsgn x * fsgn y < 0 then NInf else NaN)"

text \<open>
  \<open>round(x, 2)\<close>: to the nearest multiple of 0.01, a tie going to the even one;
  \<open>nan\<close> and the infinities are returned as they are.
\<close>

definition round_half_even :: "real \<Rightarrow> int" where
  "round_half_even x =
     (let f = \<lfloor>x\<rfloor>; d = x - of_int f
      in if d < 1 / 2 then f else if 1 / 2 < d then f + 1 else if even f then f else f + 1)"

fun py_round2 :: "pyfloat \<Rightarrow> pyfloat" where
  "py_round2 (Fin x) = Fin (of_int (round_half_even (x * 100)) / 100)"
| "py_round2 x = x"

section \<open>numpy reductions and \<open>softmax\<close> (helper.py)\<close>

text \<open>\<open>np.maximum\<close>: the larger of two floats, \<open>nan\<close> if either is \<open>nan\<close>.\<close>

definition fmaximum :: "pyfloat \<Rightarrow> pyfloat \<Rightarrow> pyfloat" where
  "fmaximum a b = (if isnan a then a else if isnan b then b else if fle b a then a else b)"

text \<open>\<open>np.max\<close> of a one-dimensional float array; a zero-size array raises ValueError.\<close>

fun np_max :: "pyfloat list \<Rightarrow> py_error + pyfloat" where
  "np_max [] = Inl ValueError"
| "np_max (x # xs) = Inr (foldl fmaximum x xs)"

text \<open>\<open>ndarray.sum\<close>: left to right from 0.0.\<close>

definition np_sum :: "pyfloat list \<Rightarrow> pyfloat" where
  "np_sum xs = foldl fadd (Fin 0) xs"

text \<open>
  \<open>np.argmax\<close>: numpy keeps the running maximum \<open>mp\<close> and its index, replaces them at
  every element that is not \<open><= mp\<close>, and stops at the first \<open>nan\<close>, which counts as
  maximal. A zero-size array raises ValueError.
\<close>

fun argmax_scan :: "pyfloat \<Rightarrow> nat \<Rightarrow> nat \<Rightarrow> pyfloat list \<Rightarrow> nat" where
  "argmax_scan mp max_ind i [] = max_ind"
| "argmax_scan mp max_ind i (x # xs) =
     (if \<not> fle x mp
      then (if isnan x then i else argmax_scan x i (Suc i) xs)
      else argmax_scan mp max_ind (Suc i) xs)"

fun np_argmax :: "pyfloat list \<Rightarrow> py_error + nat" where
  "np_argmax [] = Inl ValueError"
| "np_argmax (x # xs) = Inr (if isnan x then 0 else argmax_scan x 0 1 xs)"

text \<open>
  \<open>softmax(scores)\<close>:
  \<^verbatim>\<open>exp_scores = np.exp(scores - np.max(scores)); return exp_scores / exp_scores.sum()\<close>
\<close>

definition softmax :: "pyfloat list \<Rightarrow> py_error + pyfloat list" where
  "softmax scores =
     (case np_max scores of
        Inl e \<Rightarrow> Inl e
      | Inr m \<Rightarrow>
          (let exp_scores = map (\<lambda>s. fexp (fsub s m)) scores;
               total = np_sum exp_scores
           in Inr (map (\<lambda>e. fdiv e total) exp_scores)))"

section \<open>Cluster (cluster.py)\<close>

text \<open>
  An entry of \<open>Cluster._programs\<close>: \<open>add_program\<close> and the constructor store the dict
  \<open>{'program': program, 'score': score}\<close>; the deprecated \<open>register_program\<close> stores the
  raw program, which has no \<open>'score'\<close> key.
\<close>

datatype 'p member = Scored (member_program: 'p) (member_score: pyfloat) | Raw 'p

text \<open>
  The field \<open>_lengths\<close> is written by the constructor and by \<open>register_program\<close> and read
  nowhere; it is left out.
\<close>

record 'p cluster =
  score :: pyfloat
  programs :: "'p member list"

definition Cluster :: "pyfloat \<Rightarrow> 'p \<Rightarrow> 'p cluster" where
  "Cluster s p = \<lparr> score = s, programs = [Scored p s] \<rparr>"

definition add_program :: "'p cluster \<Rightarrow> 'p \<Rightarrow> pyfloat \<Rightarrow> 'p cluster" where
  "add_program c p s = c \<lparr> programs := programs c @ [Scored p s] \<rparr>"


text \<open>\<open>[p['score'] for p in self._programs]\<close>: KeyError at the first entry without a score.\<close>

fun member_scores :: "'p member list \<Rightarrow> py_error + pyfloat list" where
  "member_scores [] = Inr []"
| "member_scores (Raw p # ms) = Inl KeyError"
| "member_scores (Scored p s # ms) =
     (case member_scores ms of Inl e \<Rightarrow> Inl e | Inr ss \<Rightarrow> Inr (s # ss))"

text \<open>\<open>xs[i]\<close> for a non-negative index.\<close>

definition list_get :: "'a list \<Rightarrow> nat \<Rightarrow> py_error + 'a" where
  "list_get xs i = (if i < length xs then Inr (xs ! i) else Inl IndexError)"

definition get_best_program :: "'p cluster \<Rightarrow> py_error + 'p member" where
  "get_best_program c =
     (case member_scores (programs c) of
        Inl e \<Rightarrow> Inl e
      | Inr scores \<Rightarrow>
          (case softmax scores of
             Inl e \<Rightarrow> Inl e
           | Inr softmax_scores \<Rightarrow>
               (case np_argmax softmax_scores of
                  Inl e \<Rightarrow> Inl e
                | Inr best_program_index \<Rightarrow> list_get (programs c) best_program_index)))"

section \<open>Python values and strings\<close>

text \<open>
  The dynamically typed values that reach the code: \<open>None\<close>, strings, floats, lists and
  dicts. Text is ASCII: one \<open>char\<close> is one character of a Python \<open>str\<close>.
\<close>

datatype pyval =
  PNone | PStr string | PFloat pyfloat | PList "pyval list" | PDict "(string \<times> pyval) list"

abbreviation DQ :: char where "DQ \<equiv> CHR 0x22"
abbreviation BSLASH :: char where "BSLASH \<equiv> CHR 0x5C"
abbreviation NEWLINE :: char where "NEWLINE \<equiv> CHR 0x0A"

text \<open>A text in double quotes.\<close>

definition quoted :: "string \<Rightarrow> string" where
  "quoted t = DQ # t @ [DQ]"

text \<open>The ASCII characters for which \<open>str.isspace\<close> holds; they are also the regex class \<open>\s\<close>.\<close>

definition is_space :: "char \<Rightarrow> bool" where
  "is_space c = (let n = (of_char c :: nat) in (9 \<le> n \<and> n \<le> 13) \<or> (28 \<le> n \<and> n \<le> 32))"

definition is_digit :: "char \<Rightarrow> bool" where
  "is_digit c = (let n = (of_char c :: nat) in 48 \<le> n \<and> n \<le> 57)"

text \<open>The regex class \<open>\w\<close> on ASCII: letters, digits and the underscore.\<close>

definition is_word :: "char \<Rightarrow> bool" where
  "is_word c =
     (let n = (of_char c :: nat)
      in (48 \<le> n \<and> n \<le> 57) \<or> (65 \<le> n \<and> n \<le> 90) \<or> (97 \<le> n \<and> n \<le> 122) \<or> n = 95)"

text \<open>The regex class \<open>[1-5]\<close>.\<close>

definition is_1to5 :: "char \<Rightarrow> bool" where
  "is_1to5 c = (let n = (of_char c :: nat) in 49 \<le> n \<and> n \<le> 53)"

definition lower :: "char \<Rightarrow> char" where
  "lower c = (let n = (of_char c :: nat) in if 65 \<le> n \<and> n \<le> 90 then char_of (n + 32) else c)"

text \<open>\<open>s.strip()\<close> and \<open>s.strip('"')\<close>.\<close>

definition strip_where :: "(char \<Rightarrow> bool) \<Rightarrow> string \<Rightarrow> string" where
  "strip_where P s = rev (dropWhile P (rev (dropWhile P s)))"

definition py_strip :: "string \<Rightarrow> string" where
  "py_strip s = strip_where is_space s"

definition py_strip_quotes :: "string \<Rightarrow> string" where
  "py_strip_quotes s = strip_where (\<lambda>c. c = DQ) s"

text \<open>
  \<open>s.split(sep)\<close> for a non-empty separator: the pieces between the occurrences of \<open>sep\<close>,
  found left to right; \<open>cur\<close> holds the current piece, reversed.
\<close>

function py_split_from :: "string \<Rightarrow> string \<Rightarrow> string \<Rightarrow> string list" where
  "py_split_from sep cur [] = [rev cur]"
| "py_split_from sep cur (c # cs) =
     (if sep \<noteq> [] \<and> prefix sep (c # cs)
      then rev cur # py_split_from sep [] (drop (length sep) (c # cs))
      else py_split_from sep (c # cur) cs)"
  by pat_completeness auto
termination
  by (relation "measure (\<lambda>(sep, cur, s). length s)") (auto simp: neq_Nil_conv)

definition py_split :: "string \<Rightarrow> string \<Rightarrow> string list" where
  "py_split sep s = py_split_from sep [] s"

text \<open>\<open>sep.join(xs)\<close>.\<close>

fun py_join :: "string \<Rightarrow> string list \<Rightarrow> string" where
  "py_join sep [] = []"
| "py_join sep [x] = x"
| "py_join sep (x # y # ys) = x @ sep @ py_join sep (y # ys)"

text \<open>Matching a literal at the start of a string; the rest of the string on success.\<close>

fun strip_prefix :: "string \<Rightarrow> string \<Rightarrow> string option" where
  "strip_prefix [] s = Some s"
| "strip_prefix (k # ks) [] = None"
| "strip_prefix (k # ks) (c # cs) = (if c = k then strip_prefix ks cs else None)"

text \<open>The same under \<open>re.IGNORECASE\<close>.\<close>

fun ci_strip_prefix :: "string \<Rightarrow> string \<Rightarrow> string option" where
  "ci_strip_prefix [] s = Some s"
| "ci_strip_prefix (k # ks) [] = None"
| "ci_strip_prefix (k # ks) (c # cs) =
     (if lower c = lower k then ci_strip_prefix ks cs else None)"

section \<open>RecipeEvaluator (programs\_database.py)\<close>

subsection \<open>\<open>extract_recipe_details\<close>\<close>

text \<open>
  The group \<open>(\[[^\]]*\]|"[^"]*")\<close> at the start of a string: a bracket up to the next
  closing bracket, or a double quote up to the next double quote.
\<close>

fun bracket_or_quoted :: "string \<Rightarrow> string option" where
  "bracket_or_quoted [] = None"
| "bracket_or_quoted (c # r) =
     (if c = CHR ''[''
      then (if CHR '']'' \<in> set r
            then Some (c # takeWhile (\<lambda>x. x \<noteq> CHR '']'') r @ [CHR '']'']) else None)
      else if c = DQ
      then (if DQ \<in> set r then Some (c # takeWhile (\<lambda>x. x \<noteq> DQ) r @ [DQ]) else None)
      else None)"

text \<open>
  The pattern \<open>"field"\s*[:=]\s*(\[[^\]]*\]|"[^"]*")\<close> matched at the start of a string;
  the result is group 1. No step of it has a second way to match, so there is no
  backtracking to follow.
\<close>

definition field_pattern_at :: "string \<Rightarrow> string \<Rightarrow> string option" where
  "field_pattern_at field s =
     (case strip_prefix (DQ # field @ [DQ]) s of
        None \<Rightarrow> None
      | Some r \<Rightarrow>
          (case dropWhile is_space r of
             [] \<Rightarrow> None
           | c # r2 \<Rightarrow>
               if c = CHR '':'' \<or> c = CHR ''=''
               then bracket_or_quoted (dropWhile is_space r2) else None))"

text \<open>\<open>re.search\<close>: the match at the leftmost position that has one.\<close>

fun re_search_field :: "string \<Rightarrow> string \<Rightarrow> string option" where
  "re_search_field field [] = field_pattern_at field []"
| "re_search_field field (c # cs) =
     (case field_pattern_at field (c # cs) of
        Some g \<Rightarrow> Some g
      | None \<Rightarrow> re_search_field field cs)"

definition startswith :: "string \<Rightarrow> string \<Rightarrow> bool" where
  "startswith s p = prefix p s"

definition endswith :: "string \<Rightarrow> string \<Rightarrow> bool" where
  "endswith s p = suffix p s"

text \<open>\<open>value[1:-1]\<close>.\<close>

definition slice_1_m1 :: "string \<Rightarrow> string" where
  "slice_1_m1 v = butlast (tl v)"

definition clean_items :: "string \<Rightarrow> pyval" where
  "clean_items v = PList (map (\<lambda>i. PStr (py_strip_quotes (py_strip i))) (py_split '','' v))"

text \<open>What \<open>extract_recipe_details\<close> stores for a field whose pattern matched with group \<open>v\<close>.\<close>

definition field_value :: "string \<Rightarrow> string \<Rightarrow> pyval" where
  "field_value field v =
     (if field = ''ingredients''
      then (if startswith v ''['' \<and> endswith v '']''
            then clean_items (slice_1_m1 v) else clean_items v)
      else if field = ''instructions''
      then (if startswith v ''['' \<and> endswith v '']''
            then clean_items (slice_1_m1 v)
            else PList (map (\<lambda>line. PStr (py_strip line))
                          (filter (\<lambda>line. py_strip line \<noteq> []) (py_split [BSLASH, CHR ''n''] v))))
      else PStr v)"

definition recipe_fields :: "string list" where
  "recipe_fields = [''recipe_idea'', ''essay'', ''recipe_name'', ''ingredients'', ''instructions'']"

text \<open>The loop of \<open>extract_recipe_details\<close> over the five patterns, on a string.\<close>

definition recipe_details :: "string \<Rightarrow> (string \<rightharpoonup> pyval)" where
  "recipe_details text =
     foldl (\<lambda>details field.
              case re_search_field field text of
                None \<Rightarrow> details
              | Some g \<Rightarrow> details(field \<mapsto> field_value field (py_strip g)))
       Map.empty recipe_fields"

text \<open>
  \<open>extract_recipe_details(response_text)\<close>. \<open>re.search\<close> raises TypeError when the text
  is not a string.
\<close>

definition extract_recipe_details :: "pyval \<Rightarrow> py_error + (string \<rightharpoonup> pyval)" where
  "extract_recipe_details response_text =
     (case response_text of
        PStr text \<Rightarrow> Inr (recipe_details text)
      | _ \<Rightarrow> Inl TypeError)"

subsection \<open>\<open>extract_scores_from_response\<close>\<close>

text \<open>
  What the evaluator returns: the dict is either empty or has the three keys
  \<open>scores\<close>, \<open>weighted_score\<close> and \<open>island_id\<close>; an absent key is \<open>None\<close> here.
\<close>

record response =
  resp_scores :: "pyval option"
  resp_weighted_score :: "pyval option"
  resp_island_id :: "nat option"

definition empty_response :: response where
  "empty_response = \<lparr> resp_scores = None, resp_weighted_score = None, resp_island_id = None \<rparr>"

text \<open>A parsed JSON value; \<open>json.loads\<close> gives \<open>int\<close> for an integer literal.\<close>

datatype json =
  JNull | JBool bool | JInt int | JFloat pyfloat | JStr string
  | JArr "json list" | JObj "(string \<times> json) list"

definition score_keys :: "string list" where
  "score_keys = [''taste'', ''appearance'', ''creativity'', ''crowd_appeal'',
                 ''recipe_ties_story'', ''story_brings_to_life'', ''passion'']"

definition weights :: "(string \<times> real) list" where
  "weights = [(''taste'', 0.175), (''appearance'', 0.175), (''creativity'', 0.175),
              (''crowd_appeal'', 0.175), (''recipe_ties_story'', 0.12),
              (''story_brings_to_life'', 0.12), (''passion'', 0.06)]"

text \<open>
  \<open>re.search(r"\{[\s\S]*?\}", text)\<close>: from the first opening brace to the first closing
  brace after it.
\<close>

definition re_search_braces :: "string \<Rightarrow> string option" where
  "re_search_braces text =
     (case dropWhile (\<lambda>c. c \<noteq> CHR ''{'') text of
        [] \<Rightarrow> None
      | b # r \<Rightarrow>
          if CHR ''}'' \<in> set r
          then Some (b # takeWhile (\<lambda>c. c \<noteq> CHR ''}'') r @ [CHR ''}'']) else None)"

text \<open>
  \<open>isinstance(v, (int, float)) and 1 <= v <= 5\<close>, and then \<open>float(v)\<close>. A \<open>bool\<close> is an
  \<open>int\<close> in Python, so \<open>True\<close> passes as 1.
\<close>

fun numeric_in_range :: "json \<Rightarrow> pyfloat option" where
  "numeric_in_range (JInt i) = (if 1 \<le> i \<and> i \<le> 5 then Some (Fin (of_int i)) else None)"
| "numeric_in_range (JBool b) = (if b then Some (Fin 1) else None)"
| "numeric_in_range (JFloat f) = (if fle (Fin 1) f \<and> fle f (Fin 5) then Some f else None)"
| "numeric_in_range _ = None"

text \<open>
  \<open>len(scores)\<close>: only keys of \<open>score_keys\<close> are ever stored in \<open>scores\<close>, so its length is
  the number of those keys that are present.
\<close>

definition dict_len :: "(string \<rightharpoonup> pyfloat) \<Rightarrow> nat" where
  "dict_len scores = length (filter (\<lambda>key. scores key \<noteq> None) score_keys)"

text \<open>The group \<open>([1-5](?:\.\d+)?)\<close> at the start of a string.\<close>

definition fraction_part :: "string \<Rightarrow> string" where
  "fraction_part r =
     (case r of
        [] \<Rightarrow> []
      | d # r' \<Rightarrow>
          if d = CHR ''.'' \<and> r' \<noteq> [] \<and> is_digit (hd r') then d # takeWhile is_digit r' else [])"

fun value_group :: "string \<Rightarrow> string option" where
  "value_group [] = None"
| "value_group (c # r) = (if is_1to5 c then Some (c # fraction_part r) else None)"

text \<open>An optional double quote, \<open>"?\<close>, in front of something that cannot start with one.\<close>

fun opt_quote :: "string \<Rightarrow> string" where
  "opt_quote [] = []"
| "opt_quote (c # r) = (if c = DQ then r else c # r)"

text \<open>
  The tier-2 pattern \<open>"?\b{key}\b"?\s*[:=]\s*"?([1-5](?:\.\d+)?)"?\<close> under
  \<open>re.IGNORECASE\<close>, matched at a position whose preceding character is \<open>prev\<close>
  (\<open>None\<close> at the start of the text); the result is group 1. Every key starts and ends
  with a letter, so \<open>\b\<close> before the key asks for a non-word character (or the start of
  the text) in front of it, and \<open>\b\<close> after it for a non-word character (or the end)
  behind it. The last \<open>"?\<close> always matches.
\<close>

definition strict_pattern_at :: "string \<Rightarrow> char option \<Rightarrow> string \<Rightarrow> string option" where
  "strict_pattern_at key prev s =
     (let (prev1, s1) =
            (case s of [] \<Rightarrow> (prev, s) | c # r \<Rightarrow> if c = DQ then (Some c, r) else (prev, s))
      in if (case prev1 of None \<Rightarrow> False | Some p \<Rightarrow> is_word p) then None
         else case ci_strip_prefix key s1 of
                None \<Rightarrow> None
              | Some r \<Rightarrow>
                  if r \<noteq> [] \<and> is_word (hd r) then None
                  else (case dropWhile is_space (opt_quote r) of
                          [] \<Rightarrow> None
                        | c # r3 \<Rightarrow>
                            if c = CHR '':'' \<or> c = CHR ''=''
                            then value_group (opt_quote (dropWhile is_space r3)) else None))"

fun re_search_strict :: "string \<Rightarrow> char option \<Rightarrow> string \<Rightarrow> string option" where
  "re_search_strict key prev [] = strict_pattern_at key prev []"
| "re_search_strict key prev (c # cs) =
     (case strict_pattern_at key prev (c # cs) of
        Some g \<Rightarrow> Some g
      | None \<Rightarrow> re_search_strict key (Some c) cs)"

text \<open>
  The tail \<open>.*?\b([1-5])\b\<close> of the tier-3 pattern: the first digit 1 to 5 that stands
  alone, before the end of the line (\<open>.\<close> does not match a newline).
\<close>

fun lazy_digit :: "char \<Rightarrow> string \<Rightarrow> string option" where
  "lazy_digit prev [] = None"
| "lazy_digit prev (c # r) =
     (if is_1to5 c \<and> \<not> is_word prev \<and> (r = [] \<or> \<not> is_word (hd r)) then Some [c]
      else if c = NEWLINE then None
      else lazy_digit c r)"

text \<open>The tier-3 pattern \<open>{key}.*?\b([1-5])\b\<close> under \<open>re.IGNORECASE\<close>, for a non-empty key.\<close>

definition loose_pattern_at :: "string \<Rightarrow> string \<Rightarrow> string option" where
  "loose_pattern_at key s =
     (case ci_strip_prefix key s of None \<Rightarrow> None | Some r \<Rightarrow> lazy_digit (last key) r)"

fun re_search_loose :: "string \<Rightarrow> string \<Rightarrow> string option" where
  "re_search_loose key [] = loose_pattern_at key []"
| "re_search_loose key (c # cs) =
     (case loose_pattern_at key (c # cs) of
        Some g \<Rightarrow> Some g
      | None \<Rightarrow> re_search_loose key cs)"

text \<open>\<open>float(g)\<close> for a group \<open>g\<close> of digits with an optional fraction.\<close>

definition digits_nat :: "string \<Rightarrow> nat" where
  "digits_nat ds = foldl (\<lambda>a c. 10 * a + (of_char c - 48)) 0 ds"

definition py_float :: "string \<Rightarrow> pyfloat" where
  "py_float g =
     (let ip = takeWhile (\<lambda>c. c \<noteq> CHR ''.'') g; fp = drop (length ip + 1) g
      in Fin (real (digits_nat ip) + real (digits_nat fp) / 10 ^ length fp))"

text \<open>One fallback tier: every key that has a match and is not yet in \<open>scores\<close> gets its value.\<close>

definition fill_missing ::
  "(string \<Rightarrow> string option) \<Rightarrow> (string \<rightharpoonup> pyfloat) \<Rightarrow> (string \<rightharpoonup> pyfloat)" where
  "fill_missing search scores =
     foldl (\<lambda>sc key. case search key of
                        None \<Rightarrow> sc
                      | Some g \<Rightarrow> if sc key = None then sc(key \<mapsto> py_float g) else sc)
       scores score_keys"

text \<open>
  \<open>extract_scores_from_response(response_text, recipe, island_id)\<close>. \<open>json.loads\<close> is a
  parameter: \<open>None\<close> stands for JSONDecodeError, and a text that starts with a brace
  parses to a dict.
\<close>

definition extract_scores_from_response ::
  "(string \<Rightarrow> (string \<rightharpoonup> json) option) \<Rightarrow> string \<Rightarrow> nat \<Rightarrow> response" where
  "extract_scores_from_response json_loads response_text island_id =
     (let scores1 =
            (case re_search_braces response_text of
               None \<Rightarrow> Map.empty
             | Some json_match \<Rightarrow>
                 (case json_loads (py_strip json_match) of
                    None \<Rightarrow> Map.empty
                  | Some response_json \<Rightarrow>
                      foldl (\<lambda>sc key. case response_json key of
                                         None \<Rightarrow> sc
                                       | Some v \<Rightarrow> (case numeric_in_range v of
                                                      None \<Rightarrow> sc
                                                    | Some f \<Rightarrow> sc(key \<mapsto> f)))
                        Map.empty score_keys));
          scores2 =
            (if dict_len scores1 < 7
             then fill_missing (\<lambda>key. re_search_strict key None response_text) scores1
             else scores1);
          scores3 =
            (if dict_len scores2 < 7
             then fill_missing (\<lambda>key. re_search_loose key response_text) scores2
             else scores2);
          scores_per_test = (\<lambda>key. case scores3 key of None \<Rightarrow> Fin 0 | Some f \<Rightarrow> f);
          score = py_round2 (foldl fadd (Fin 0)
                    (map (\<lambda>(key, w). fmul (scores_per_test key) (Fin w)) weights))
      in \<lparr> resp_scores =
             Some (PList (map (\<lambda>key. case scores3 key of None \<Rightarrow> PNone | Some f \<Rightarrow> PFloat f)
                            score_keys)),
           resp_weighted_score = Some (PFloat score),
           resp_island_id = Some island_id \<rparr>)"

text \<open>A dict of scores all of whose values are finite.\<close>

definition finite_values :: "(string \<rightharpoonup> pyfloat) \<Rightarrow> bool" where
  "finite_values sc \<longleftrightarrow> (\<forall>k f. sc k = Some f \<longrightarrow> (\<exists>x. f = Fin x))"


text \<open>
  Example inputs: an evaluator reply with a JSON block, the block, what \<open>json.loads\<close>
  gives for it, and a \<open>json.loads\<close> that knows this block only.
\<close>

definition sample_block :: string where
  "sample_block =
     ''{'' @ quoted ''taste'' @ '': 5, '' @ quoted ''appearance'' @ '': 4, '' @
     quoted ''creativity'' @ '': 3, '' @ quoted ''crowd_appeal'' @ '': 4.5, '' @
     quoted ''recipe_ties_story'' @ '': 2, '' @ quoted ''story_brings_to_life'' @ '': 1, '' @
     quoted ''passion'' @ '': 5}''"

definition sample_reply :: string where
  "sample_reply = ''Here are my scores: '' @ sample_block @ '' Thank you.''"

definition sample_json :: "string \<rightharpoonup> json" where
  "sample_json =
     [''taste'' \<mapsto> JInt 5, ''appearance'' \<mapsto> JInt 4, ''creativity'' \<mapsto> JInt 3,
      ''crowd_appeal'' \<mapsto> JFloat (Fin 4.5), ''recipe_ties_story'' \<mapsto> JInt 2,
      ''story_brings_to_life'' \<mapsto> JInt 1, ''passion'' \<mapsto> JInt 5]"

definition sample_loads :: "string \<Rightarrow> (string \<rightharpoonup> json) option" where
  "sample_loads t = (if t = sample_block then Some sample_json else None)"

section \<open>The population store\<close>

text \<open>
  A row of \<open>Island._programs\<close>, as \<open>register_and_evaluate_program\<close> builds it. The scores
  are floats: a row is built only after the check that they are. The column
  \<open>better_format\<close> of the class attribute is never filled and is left out.
\<close>

record row =
  col_island_id :: nat
  col_recipe_idea :: pyval
  col_essay :: pyval
  col_recipe_name :: string
  col_ingredients :: "string list"
  col_instructions :: string
  col_taste :: pyfloat
  col_appearance :: pyfloat
  col_creativity :: pyfloat
  col_crowd_appeal :: pyfloat
  col_recipe_ties_story :: pyfloat
  col_story_brings_to_life :: pyfloat
  col_passion :: pyfloat
  col_weighted_score :: pyfloat
  col_formatted_recipe :: string


text \<open>A DataFrame object: its rows and, when it has one, its column \<open>softmax_score\<close>.\<close>

record frame =
  rows :: "row list"
  softmax_score :: "pyfloat list option"

text \<open>
  The program state: the DataFrame objects by address, the next free address, and the
  address the class attribute \<open>Island._programs\<close> is bound to. \<open>registered\<close> is a history
  variable, not part of the program: the rows that \<open>register_and_evaluate_program\<close> has
  appended so far, in order.
\<close>

record pystate =
  frames :: "nat \<Rightarrow> frame"
  fresh :: nat
  Island_programs :: nat
  registered :: "row list"

definition new_frame :: "frame \<Rightarrow> pystate \<Rightarrow> nat \<times> pystate" where
  "new_frame f s = (fresh s, s \<lparr> frames := (frames s)(fresh s := f), fresh := Suc (fresh s) \<rparr>)"

definition empty_frame :: frame where
  "empty_frame = \<lparr> rows = [], softmax_score = None \<rparr>"

definition store_rows :: "pystate \<Rightarrow> row list" where
  "store_rows s = rows (frames s (Island_programs s))"

text \<open>\<open>df[mask]\<close>: a new DataFrame with the rows that satisfy the mask.\<close>

definition select_rows :: "(row \<Rightarrow> bool) \<Rightarrow> frame \<Rightarrow> frame" where
  "select_rows P f =
     \<lparr> rows = filter P (rows f),
       softmax_score =
         map_option (\<lambda>col. map snd (filter (\<lambda>(r, v). P r) (zip (rows f) col))) (softmax_score f) \<rparr>"

text \<open>
  \<open>pd.concat([df, pd.DataFrame([row])], ignore_index=True)\<close>: a new DataFrame; a column the
  new row does not have is \<open>nan\<close> there.
\<close>

definition concat_row :: "frame \<Rightarrow> row \<Rightarrow> frame" where
  "concat_row f r =
     \<lparr> rows = rows f @ [r], softmax_score = map_option (\<lambda>col. col @ [NaN]) (softmax_score f) \<rparr>"

text \<open>
  Sorting by a float key in descending order, an element staying behind the earlier
  elements it does not beat. This is \<open>sorted(xs, key=..., reverse=True)\<close> when no key or
  every key is \<open>nan\<close>.
\<close>

fun insert_desc :: "pyfloat \<times> 'a \<Rightarrow> (pyfloat \<times> 'a) list \<Rightarrow> (pyfloat \<times> 'a) list" where
  "insert_desc x [] = [x]"
| "insert_desc x (y # ys) = (if flt (fst y) (fst x) then x # y # ys else y # insert_desc x ys)"

definition sort_desc :: "(pyfloat \<times> 'a) list \<Rightarrow> (pyfloat \<times> 'a) list" where
  "sort_desc xs = foldl (\<lambda>acc x. insert_desc x acc) [] xs"

text \<open>
  \<open>df.sort_values(by="softmax_score", ascending=False)\<close>: a new DataFrame, \<open>nan\<close> keys last.
  pandas does not fix the order of rows with equal keys; here they keep their order.
\<close>

definition sort_values_desc :: "frame \<Rightarrow> frame" where
  "sort_values_desc f =
     (case softmax_score f of
        None \<Rightarrow> f
      | Some col \<Rightarrow>
          (let kvs = zip col (rows f);
               sorted = sort_desc (filter (\<lambda>(k, r). \<not> isnan k) kvs) @ filter (\<lambda>(k, r). isnan k) kvs
           in \<lparr> rows = map snd sorted, softmax_score = Some (map fst sorted) \<rparr>))"

section \<open>Island (island.py)\<close>

text \<open>
  The mutable attributes of an \<open>Island\<close> object. The template, the API key and the evaluator
  only feed the network calls, which are the oracles of \<open>env\<close> below.
\<close>

record island =
  island_id :: nat
  best_program :: "row option"
  best_score :: pyfloat
  clusters :: "row cluster list"

definition Island :: "nat \<Rightarrow> island" where
  "Island i = \<lparr> island_id = i, best_program = None, best_score = NInf, clusters = [] \<rparr>"

subsection \<open>\<open>register_and_evaluate_program\<close>\<close>

text \<open>\<open>[i for i in xs if isinstance(i, str)]\<close>.\<close>

fun str_items :: "pyval list \<Rightarrow> string list" where
  "str_items [] = []"
| "str_items (PStr t # xs) = t # str_items xs"
| "str_items (_ # xs) = str_items xs"

definition norm_instructions :: "pyval option \<Rightarrow> string" where
  "norm_instructions raw_instructions =
     (case raw_instructions of
        Some (PList xs) \<Rightarrow> py_join '' '' (map py_strip_quotes (str_items xs))
      | Some (PStr t) \<Rightarrow> py_strip t
      | _ \<Rightarrow> [])"

definition norm_ingredients :: "pyval option \<Rightarrow> string list" where
  "norm_ingredients raw_ingredients =
     (case raw_ingredients of
        Some (PList xs) \<Rightarrow> map py_strip_quotes (filter (\<lambda>i. py_strip i \<noteq> []) (str_items xs))
      | Some (PStr t) \<Rightarrow> map py_strip (filter (\<lambda>i. py_strip i \<noteq> []) (py_split '','' t))
      | _ \<Rightarrow> [])"

definition missing_fields :: "(string \<rightharpoonup> pyval) \<Rightarrow> string \<Rightarrow> string list \<Rightarrow> string list" where
  "missing_fields recipe instructions ingredients =
     (if \<not> (case recipe ''recipe_name'' of Some (PStr n) \<Rightarrow> py_strip n \<noteq> [] | _ \<Rightarrow> False)
      then [''recipe_name''] else []) @
     (if instructions = [] then [''instructions''] else []) @
     (if ingredients = [] then [''ingredients''] else [])"

text \<open>
  \<open>any(s is None or math.isnan(s) for s in scores)\<close>, stopping at the first hit.
  \<open>math.isnan\<close> raises TypeError on a value that is not a number. \<open>Inr None\<close>: some score
  is \<open>None\<close> or \<open>nan\<close>; \<open>Inr (Some fs)\<close>: none is, and \<open>fs\<close> are the scores.
\<close>

fun check_scores :: "pyval list \<Rightarrow> py_error + pyfloat list option" where
  "check_scores [] = Inr (Some [])"
| "check_scores (PNone # ss) = Inr None"
| "check_scores (PFloat f # ss) =
     (if isnan f then Inr None
      else (case check_scores ss of
              Inl e \<Rightarrow> Inl e
            | Inr None \<Rightarrow> Inr None
            | Inr (Some fs) \<Rightarrow> Inr (Some (f # fs))))"
| "check_scores (_ # ss) = Inl TypeError"

text \<open>
  Step 3, the condition of the \<open>if\<close> in source order. \<open>Inr None\<close>: the condition holds and
  the call returns; \<open>Inr (Some (scores, weighted_score))\<close>: it does not.
\<close>

definition validate_scores :: "response \<Rightarrow> py_error + (pyfloat list \<times> pyfloat) option" where
  "validate_scores response =
     (case (case resp_scores response of None \<Rightarrow> PList (replicate 7 PNone) | Some v \<Rightarrow> v) of
        PList ss \<Rightarrow>
          if length ss \<noteq> 7 then Inr None
          else (case check_scores ss of
                  Inl e \<Rightarrow> Inl e
                | Inr None \<Rightarrow> Inr None
                | Inr (Some fs) \<Rightarrow>
                    (case resp_weighted_score response of
                       None \<Rightarrow> Inr None
                     | Some PNone \<Rightarrow> Inr None
                     | Some (PFloat w) \<Rightarrow> if isnan w then Inr None else Inr (Some (fs, w))
                     | Some _ \<Rightarrow> Inl TypeError))
      | _ \<Rightarrow> Inr None)"

definition update_best_program :: "island \<Rightarrow> row \<Rightarrow> island" where
  "update_best_program self program_data =
     (if fgt (col_weighted_score program_data) (best_score self)
      then self \<lparr> best_program := Some program_data,
                 best_score := col_weighted_score program_data \<rparr>
      else self)"

text \<open>Step 4: the dict \<open>formatted_data\<close>.\<close>

definition formatted_data ::
  "(string \<rightharpoonup> pyval) \<Rightarrow> nat \<Rightarrow> response \<Rightarrow> string list \<Rightarrow> string \<Rightarrow>
     pyfloat \<Rightarrow> pyfloat \<Rightarrow> pyfloat \<Rightarrow> pyfloat \<Rightarrow> pyfloat \<Rightarrow> pyfloat \<Rightarrow> pyfloat \<Rightarrow> pyfloat \<Rightarrow> row" where
  "formatted_data recipe iid response ingredients instructions
     taste appearance creativity crowd_appeal recipe_ties_story story_brings_to_life passion
     weighted =
     \<lparr> col_island_id = (case resp_island_id response of None \<Rightarrow> iid | Some i \<Rightarrow> i),
       col_recipe_idea = (case recipe ''recipe_idea'' of None \<Rightarrow> PStr [] | Some v \<Rightarrow> v),
       col_essay = (case recipe ''essay'' of None \<Rightarrow> PStr [] | Some v \<Rightarrow> v),
       col_recipe_name = (case recipe ''recipe_name'' of Some (PStr n) \<Rightarrow> py_strip n | _ \<Rightarrow> []),
       col_ingredients = ingredients,
       col_instructions = instructions,
       col_taste = taste,
       col_appearance = appearance,
       col_creativity = creativity,
       col_crowd_appeal = crowd_appeal,
       col_recipe_ties_story = recipe_ties_story,
       col_story_brings_to_life = story_brings_to_life,
       col_passion = passion,
       col_weighted_score = weighted,
       col_formatted_recipe = [] \<rparr>"

text \<open>Step 5: the new DataFrame is bound to \<open>Island._programs\<close>.\<close>

definition append_program :: "pystate \<Rightarrow> row \<Rightarrow> pystate" where
  "append_program s r =
     (let (a, s1) = new_frame (concat_row (frames s (Island_programs s)) r) s
      in s1 \<lparr> Island_programs := a, registered := registered s1 @ [r] \<rparr>)"

text \<open>
  The body of \<open>register_and_evaluate_program\<close> after its only \<open>await\<close>, on the extracted
  recipe. Unpacking a list that has not seven elements raises ValueError.
\<close>

definition register_recipe ::
  "island \<Rightarrow> pystate \<Rightarrow> (string \<rightharpoonup> pyval) \<Rightarrow> nat \<Rightarrow> response \<Rightarrow> py_error + island \<times> pystate" where
  "register_recipe self s recipe iid response =
     (let instructions = norm_instructions (recipe ''instructions'');
          ingredients = norm_ingredients (recipe ''ingredients'')
      in if missing_fields recipe instructions ingredients \<noteq> [] then Inr (self, s)
         else (case validate_scores response of
                 Inl e \<Rightarrow> Inl e
               | Inr None \<Rightarrow> Inr (self, s)
               | Inr (Some (scores, weighted)) \<Rightarrow>
                   (case scores of
                      [taste, appearance, creativity, crowd_appeal,
                       recipe_ties_story, story_brings_to_life, passion] \<Rightarrow>
                        (let program_data =
                               formatted_data recipe iid response ingredients instructions
                                 taste appearance creativity crowd_appeal recipe_ties_story
                                 story_brings_to_life passion weighted
                         in Inr (update_best_program self program_data,
                                 append_program s program_data))
                    | _ \<Rightarrow> Inl ValueError)))"

definition register_and_evaluate_program ::
  "island \<Rightarrow> pystate \<Rightarrow> pyval \<Rightarrow> nat \<Rightarrow> response \<Rightarrow> py_error + island \<times> pystate" where
  "register_and_evaluate_program self s program iid response =
     (case extract_recipe_details program of
        Inl e \<Rightarrow> Inl e
      | Inr recipe \<Rightarrow> register_recipe self s recipe iid response)"

text \<open>
  The conditions of registration in words, to compare with the code. The required text
  fields: a recipe name that is a string and not blank, normalized instructions and
  normalized ingredients that are not empty.
\<close>

definition fields_present :: "(string \<rightharpoonup> pyval) \<Rightarrow> bool" where
  "fields_present recipe =
     ((case recipe ''recipe_name'' of Some (PStr n) \<Rightarrow> py_strip n \<noteq> [] | _ \<Rightarrow> False) \<and>
      norm_instructions (recipe ''instructions'') \<noteq> [] \<and>
      norm_ingredients (recipe ''ingredients'') \<noteq> [])"

text \<open>A score that is present, a number and not \<open>nan\<close>.\<close>

fun present_number :: "pyval \<Rightarrow> bool" where
  "present_number (PFloat f) = (\<not> isnan f)"
| "present_number _ = False"

text \<open>The response carries a list of exactly seven such scores.\<close>

definition seven_scores :: "response \<Rightarrow> bool" where
  "seven_scores response =
     (case resp_scores response of
        Some (PList ss) \<Rightarrow> length ss = 7 \<and> list_all present_number ss
      | _ \<Rightarrow> False)"


definition weighted_not_nan :: "response \<Rightarrow> bool" where
  "weighted_not_nan response =
     (case resp_weighted_score response of Some v \<Rightarrow> present_number v | None \<Rightarrow> False)"

text \<open>
  A response as the evaluator makes it: the scores, when they are a list, hold floats and
  \<open>None\<close> only, and the weighted score, when there is one, is a float or \<open>None\<close>.
\<close>

fun float_or_none :: "pyval \<Rightarrow> bool" where
  "float_or_none PNone = True"
| "float_or_none (PFloat f) = True"
| "float_or_none _ = False"

definition well_typed :: "response \<Rightarrow> bool" where
  "well_typed response =
     ((case resp_scores response of Some (PList ss) \<Rightarrow> list_all float_or_none ss | _ \<Rightarrow> True) \<and>
      (case resp_weighted_score response of Some v \<Rightarrow> float_or_none v | None \<Rightarrow> True))"

text \<open>
  The conditions under which a string program with a response is registered: the three
  fields, seven scores, a weighted score that is not \<open>nan\<close>.
\<close>

definition accepted :: "string \<Rightarrow> response \<Rightarrow> bool" where
  "accepted t response \<longleftrightarrow>
     fields_present (recipe_details t) \<and> seven_scores response \<and> weighted_not_nan response"

text \<open>
  Example inputs: a generated text with the three required fields, the same text with an
  empty ingredients list, and a response with seven scores of 4.0 and weighted score \<open>w\<close>.
\<close>

definition sample_program :: string where
  "sample_program =
     quoted ''recipe_name'' @ '': '' @ quoted ''Pie'' @ '', '' @
     quoted ''ingredients'' @ '': ['' @ quoted ''flour'' @ '', '' @ quoted ''sugar'' @ ''], '' @
     quoted ''instructions'' @ '': '' @ quoted ''Mix. Bake.''"

definition no_ingredients_program :: string where
  "no_ingredients_program =
     quoted ''recipe_name'' @ '': '' @ quoted ''Pie'' @ '', '' @
     quoted ''ingredients'' @ '': [], '' @
     quoted ''instructions'' @ '': '' @ quoted ''Mix. Bake.''"

definition sample_response :: "pyval \<Rightarrow> response" where
  "sample_response w =
     \<lparr> resp_scores = Some (PList (replicate 7 (PFloat (Fin 4)))),
       resp_weighted_score = Some w, resp_island_id = Some 0 \<rparr>"

subsection \<open>\<open>cluster_programs\<close>\<close>

text \<open>The test \<open>abs(cluster.score - score) < 0.5\<close>.\<close>


definition admits :: "'p cluster \<Rightarrow> pyfloat \<Rightarrow> bool" where
  "admits c s = flt (fabs (fsub (score c) s)) (Fin 0.5)"

text \<open>
  The inner loop over \<open>self._clusters\<close>: the program goes into the first cluster that
  passes the test; \<open>None\<close> when there is none.
\<close>

fun add_to_first_match :: "'p cluster list \<Rightarrow> 'p \<Rightarrow> pyfloat \<Rightarrow> 'p cluster list option" where
  "add_to_first_match [] p s = None"
| "add_to_first_match (c # cs) p s =
     (if admits c s then Some (add_program c p s # cs)
      else map_option (\<lambda>cs'. c # cs') (add_to_first_match cs p s))"

definition cluster_row :: "row cluster list \<Rightarrow> row \<Rightarrow> row cluster list" where
  "cluster_row cs r =
     (let s = col_weighted_score r
      in case add_to_first_match cs r s of Some cs' \<Rightarrow> cs' | None \<Rightarrow> cs @ [Cluster s r])"

definition cluster_programs :: "island \<Rightarrow> pystate \<Rightarrow> island" where
  "cluster_programs self s =
     (let island_programs = filter (\<lambda>r. col_island_id r = island_id self) (store_rows s)
      in if island_programs = [] then self
         else self \<lparr> clusters := foldl cluster_row (clusters self) island_programs \<rparr>)"

subsection \<open>\<open>rank_programs\<close>\<close>

text \<open>
  \<open>rank_programs\<close> returns the address of a new DataFrame. The mask selection, \<open>.copy()\<close>,
  \<open>pd.DataFrame()\<close> and \<open>sort_values\<close> each make a new object; the assignment of the column
  \<open>softmax_score\<close> changes the copy in place.
\<close>

definition rank_programs :: "island \<Rightarrow> pystate \<Rightarrow> py_error + nat \<times> pystate" where
  "rank_programs self s =
     (let (a0, s0) = new_frame (select_rows (\<lambda>r. col_island_id r = island_id self)
                                   (frames s (Island_programs s))) s;
          (island_programs, s1) = new_frame (frames s0 a0) s0
      in if rows (frames s1 island_programs) = [] then Inr (new_frame empty_frame s1)
         else (case softmax (map col_weighted_score (rows (frames s1 island_programs))) of
                 Inl e \<Rightarrow> Inl e
               | Inr softmax_scores \<Rightarrow>
                   (let s2 = s1 \<lparr> frames := (frames s1)
                                   (island_programs :=
                                      (frames s1 island_programs)
                                        \<lparr> softmax_score := Some softmax_scores \<rparr>) \<rparr>
                    in Inr (new_frame (sort_values_desc (frames s2 island_programs)) s2))))"

section \<open>The network calls\<close>

text \<open>
  What a call to the chat-completions endpoint gives: the content of the first choice, a
  reply without choices, or an exception.
\<close>

datatype http_reply = Choices string | NoChoices | Failure

text \<open>A dict of \<open>get_formatted_recipes_for_island\<close>.\<close>

record formatted =
  fr_recipe_idea :: pyval
  fr_essay :: pyval
  fr_recipe_name :: string
  fr_ingredients :: "string list"
  fr_instructions :: string
  fr_softmax_score :: pyfloat

text \<open>
  The outside world: the replies of the generator (by island and attempt), of the evaluator
  (by model, recipe and a tag that names the call) and of the evolve prompt (by parents
  and tag), and \<open>json.loads\<close>.
\<close>

record env =
  http_generate :: "nat \<Rightarrow> nat \<Rightarrow> http_reply"
  http_evaluate :: "string \<Rightarrow> pyval \<Rightarrow> nat list \<Rightarrow> http_reply"
  http_evolve :: "formatted list \<Rightarrow> nat list \<Rightarrow> http_reply"
  json_loads :: "string \<Rightarrow> (string \<rightharpoonup> json) option"

text \<open>\<open>Island.generate_recipe\<close>: the stripped content, or the empty string on any failure.\<close>

definition generate_recipe :: "env \<Rightarrow> island \<Rightarrow> nat \<Rightarrow> string" where
  "generate_recipe env self attempt =
     (case http_generate env (island_id self) attempt of
        Choices content \<Rightarrow> py_strip content
      | _ \<Rightarrow> [])"

text \<open>\<open>RecipeEvaluator.evaluate_recipe_with_llm\<close>: the extracted scores, or \<open>{}\<close> on any failure.\<close>

definition evaluate_recipe_with_llm ::
  "env \<Rightarrow> pyval \<Rightarrow> nat \<Rightarrow> string \<Rightarrow> nat list \<Rightarrow> response" where
  "evaluate_recipe_with_llm env recipe iid model_name tag =
     (let model = (if model_name = ''good''
                   then ''meta-llama/Llama-4-Scout-17B-16E-Instruct''
                   else ''meta-llama/Meta-Llama-3.1-8B-Instruct'')
      in case http_evaluate env model recipe tag of
           Choices content \<Rightarrow> extract_scores_from_response (json_loads env) (py_strip content) iid
         | _ \<Rightarrow> empty_response)"

subsection \<open>\<open>initialize_programs\<close>\<close>

text \<open>
  The \<open>while True\<close> loop of \<open>initialize_programs\<close>, with the attempts made so far and the
  local constant \<open>max_total_attempts\<close> as arguments. \<open>None\<close> is a loop that runs forever.
  The result carries the number of attempts made; the sleeps between attempts change no
  state and are left out.
\<close>

partial_function (option) initialize_loop ::
  "env \<Rightarrow> bool \<Rightarrow> nat \<Rightarrow> string \<Rightarrow> nat \<Rightarrow> island \<Rightarrow> pystate \<Rightarrow>
     (py_error + nat \<times> island \<times> pystate) option" where
  "initialize_loop env allow_infinite_retries max_total_attempts model_name attempt0 self s =
     (let attempt = attempt0 + 1;
          program = generate_recipe env self attempt
      in if program = []
         then (if \<not> allow_infinite_retries \<and> max_total_attempts \<le> attempt
               then Some (Inr (attempt, self, s))
               else initialize_loop env allow_infinite_retries max_total_attempts model_name
                      attempt self s)
         else (let response = evaluate_recipe_with_llm env (PStr program) (island_id self)
                                model_name [island_id self, attempt];
                   previous_program_count = length (store_rows s)
               in case register_and_evaluate_program self s (PStr program) (island_id self)
                         response of
                    Inl e \<Rightarrow> Some (Inl e)
                  | Inr (self', s') \<Rightarrow>
                      if previous_program_count < length (store_rows s')
                      then Some (Inr (attempt, self', s'))
                      else if \<not> allow_infinite_retries \<and> max_total_attempts \<le> attempt
                      then Some (Inr (attempt, self', s'))
                      else initialize_loop env allow_infinite_retries max_total_attempts
                             model_name attempt self' s'))"

definition initialize_programs ::
  "env \<Rightarrow> island \<Rightarrow> pystate \<Rightarrow> string \<Rightarrow> bool \<Rightarrow> (py_error + nat \<times> island \<times> pystate) option" where
  "initialize_programs env self s model_name allow_infinite_retries =
     initialize_loop env allow_infinite_retries 100 model_name 0 self s"

text \<open>
  An example world: the generator fails on every attempt but the hundredth, where it
  gives \<open>sample_program\<close>; the evaluator always replies \<open>sample_reply\<close>; the evolve prompt
  replies \<open>sample_program\<close>.
\<close>

definition sample_env :: env where
  "sample_env =
     \<lparr> http_generate = (\<lambda>i attempt. if attempt = 100 then Choices sample_program else NoChoices),
       http_evaluate = (\<lambda>model recipe tag. Choices sample_reply),
       http_evolve = (\<lambda>parents tag. Choices sample_program),
       json_loads = sample_loads \<rparr>"

section \<open>ProgramsDatabase and the driver (programs\_database.py, funsearch.py)\<close>

text \<open>
  \<open>asyncio.gather\<close> runs its coroutines on one thread, switching between them only at
  an \<open>await\<close> that suspends. In this section a gather runs its coroutines one after the
  other in list order. An island reads only its own rows and a registration writes a
  row of its own island, so the order changes the order of the rows in the store and
  nothing else. The interleavings of the registrations are the subject of the last
  section.
\<close>

fun gather_initialize ::
  "env \<Rightarrow> string \<Rightarrow> island list \<Rightarrow> pystate \<Rightarrow> (py_error + island list \<times> pystate) option" where
  "gather_initialize env model_name [] s = Some (Inr ([], s))"
| "gather_initialize env model_name (island # islands) s =
     (case initialize_programs env island s model_name True of
        None \<Rightarrow> None
      | Some (Inl e) \<Rightarrow> Some (Inl e)
      | Some (Inr (n, island', s')) \<Rightarrow>
          (case gather_initialize env model_name islands s' of
             None \<Rightarrow> None
           | Some (Inl e) \<Rightarrow> Some (Inl e)
           | Some (Inr (islands', s'')) \<Rightarrow> Some (Inr (island' # islands', s''))))"

definition initialize_islands ::
  "env \<Rightarrow> nat \<Rightarrow> string \<Rightarrow> pystate \<Rightarrow> (py_error + island list \<times> pystate) option" where
  "initialize_islands env num_islands model_name s =
     (case gather_initialize env model_name (map Island [0..<num_islands]) s of
        None \<Rightarrow> None
      | Some (Inl e) \<Rightarrow> Some (Inl e)
      | Some (Inr (islands, s')) \<Rightarrow>
          Some (Inr (map (\<lambda>island. cluster_programs island s') islands, s')))"

definition get_formatted_recipes_for_island ::
  "island \<Rightarrow> pystate \<Rightarrow> py_error + formatted list \<times> pystate" where
  "get_formatted_recipes_for_island island s =
     (case rank_programs island s of
        Inl e \<Rightarrow> Inl e
      | Inr (ranked_programs, s') \<Rightarrow>
          (let f = frames s' ranked_programs;
               col = (case softmax_score f of
                        None \<Rightarrow> replicate (length (rows f)) (Fin 0)
                      | Some c \<Rightarrow> c)
           in Inr (map (\<lambda>(recipe, v).
                          \<lparr> fr_recipe_idea = col_recipe_idea recipe,
                            fr_essay = col_essay recipe,
                            fr_recipe_name = col_recipe_name recipe,
                            fr_ingredients = col_ingredients recipe,
                            fr_instructions = col_instructions recipe,
                            fr_softmax_score = v \<rparr>)
                     (zip (rows f) col), s')))"

text \<open>
  \<open>evolve_function\<close>: the stripped content when it is not empty, else \<open>{}\<close>; an exception of
  the HTTP call is not caught.
\<close>

definition evolve_function :: "env \<Rightarrow> formatted list \<Rightarrow> nat list \<Rightarrow> py_error + pyval" where
  "evolve_function env previous_versions tag =
     (case http_evolve env previous_versions tag of
        Choices content \<Rightarrow>
          if py_strip content \<noteq> [] then Inr (PStr (py_strip content)) else Inr (PDict [])
      | NoChoices \<Rightarrow> Inr (PDict [])
      | Failure \<Rightarrow> Inl HttpError)"

fun evolve_and_score ::
  "env \<Rightarrow> formatted list \<Rightarrow> nat \<Rightarrow> string \<Rightarrow> nat \<Rightarrow> nat list \<Rightarrow>
     py_error + (pyval \<times> response) list" where
  "evolve_and_score env top_candidates iid model_name batch [] = Inr []"
| "evolve_and_score env top_candidates iid model_name batch (k # ks) =
     (case evolve_function env top_candidates [iid, batch, k] of
        Inl e \<Rightarrow> Inl e
      | Inr evolved_recipe \<Rightarrow>
          (let scored = evaluate_recipe_with_llm env evolved_recipe iid model_name [iid, batch, k]
           in case evolve_and_score env top_candidates iid model_name batch ks of
                Inl e \<Rightarrow> Inl e
              | Inr rest \<Rightarrow> Inr ((evolved_recipe, scored) # rest)))"

fun register_all ::
  "island \<Rightarrow> pystate \<Rightarrow> (pyval \<times> response) list \<Rightarrow> py_error + island \<times> pystate" where
  "register_all island s [] = Inr (island, s)"
| "register_all island s ((recipe, scored) # rest) =
     (case register_and_evaluate_program island s recipe (island_id island) scored of
        Inl e \<Rightarrow> Inl e
      | Inr (island', s') \<Rightarrow> register_all island' s' rest)"

definition generate_recipes_for_island_batch ::
  "env \<Rightarrow> island \<Rightarrow> pystate \<Rightarrow> nat \<Rightarrow> nat \<Rightarrow> string \<Rightarrow> py_error + island \<times> pystate" where
  "generate_recipes_for_island_batch env island s batch recipes_per_batch model_name =
     (case get_formatted_recipes_for_island island s of
        Inl e \<Rightarrow> Inl e
      | Inr (island_recipes, s1) \<Rightarrow>
          (let top_candidates =
                 take 2 (map snd (sort_desc (map (\<lambda>x. (fr_softmax_score x, x)) island_recipes)))
           in case evolve_and_score env top_candidates (island_id island) model_name batch
                     [0..<recipes_per_batch] of
                Inl e \<Rightarrow> Inl e
              | Inr scored_recipes \<Rightarrow> register_all island s1 scored_recipes))"

fun gather_batch ::
  "env \<Rightarrow> string \<Rightarrow> nat \<Rightarrow> nat \<Rightarrow> island list \<Rightarrow> pystate \<Rightarrow> py_error + island list \<times> pystate" where
  "gather_batch env model_name recipes_per_batch batch [] s = Inr ([], s)"
| "gather_batch env model_name recipes_per_batch batch (island # islands) s =
     (case generate_recipes_for_island_batch env island s batch recipes_per_batch model_name of
        Inl e \<Rightarrow> Inl e
      | Inr (island', s') \<Rightarrow>
          (case gather_batch env model_name recipes_per_batch batch islands s' of
             Inl e \<Rightarrow> Inl e
           | Inr (islands', s'') \<Rightarrow> Inr (island' # islands', s'')))"

fun run_batches ::
  "env \<Rightarrow> string \<Rightarrow> nat \<Rightarrow> nat list \<Rightarrow> island list \<Rightarrow> pystate \<Rightarrow>
     py_error + island list \<times> pystate" where
  "run_batches env model_name recipes_per_batch [] islands s = Inr (islands, s)"
| "run_batches env model_name recipes_per_batch (batch # batches) islands s =
     (case gather_batch env model_name recipes_per_batch batch islands s of
        Inl e \<Rightarrow> Inl e
      | Inr (islands', s') \<Rightarrow> run_batches env model_name recipes_per_batch batches islands' s')"

text \<open>
  \<open>fun_search_optimization\<close> returns the address \<open>Island._programs\<close> is bound to at the end.
  \<open>None\<close>: an island never gets its first program.
\<close>

definition fun_search_optimization ::
  "env \<Rightarrow> nat \<Rightarrow> nat \<Rightarrow> nat \<Rightarrow> string \<Rightarrow> pystate \<Rightarrow> (py_error + nat \<times> pystate) option" where
  "fun_search_optimization env num_batches recipes_per_batch num_islands model_name s =
     (let (a, s0) = new_frame empty_frame s;
          s1 = s0 \<lparr> Island_programs := a \<rparr>
      in case initialize_islands env num_islands model_name s1 of
           None \<Rightarrow> None
         | Some (Inl e) \<Rightarrow> Some (Inl e)
         | Some (Inr (islands, s2)) \<Rightarrow>
             Some (case run_batches env model_name recipes_per_batch [0..<num_batches]
                          islands s2 of
                     Inl e \<Rightarrow> Inl e
                   | Inr (islands', s3) \<Rightarrow> Inr (Island_programs s3, s3)))"

section \<open>Interleaved registrations\<close>

text \<open>
  The registrations that \<open>asyncio.gather\<close> schedules, as tasks. A task is the call
  \<open>islands[k].register_and_evaluate_program(program, iid, response)\<close>. Its only \<open>await\<close>
  is the extraction of the recipe, so it runs in two steps that another task may come
  between: the extraction, which touches no shared state, and the rest of the body.
\<close>

datatype task =
  Pending nat pyval nat response
| Extracted nat "string \<rightharpoonup> pyval" nat response
| Done
| Failed py_error

inductive step ::
  "island list \<times> pystate \<times> task list \<Rightarrow> island list \<times> pystate \<times> task list \<Rightarrow> bool" where
  step_extract:
    "\<lbrakk> i < length ts; ts ! i = Pending k program iid response;
       extract_recipe_details program = Inr recipe \<rbrakk>
     \<Longrightarrow> step (islands, s, ts) (islands, s, ts[i := Extracted k recipe iid response])"
| step_extract_raises:
    "\<lbrakk> i < length ts; ts ! i = Pending k program iid response;
       extract_recipe_details program = Inl e \<rbrakk>
     \<Longrightarrow> step (islands, s, ts) (islands, s, ts[i := Failed e])"
| step_register:
    "\<lbrakk> i < length ts; ts ! i = Extracted k recipe iid response; k < length islands;
       register_recipe (islands ! k) s recipe iid response = Inr (self', s') \<rbrakk>
     \<Longrightarrow> step (islands, s, ts) (islands[k := self'], s', ts[i := Done])"
| step_register_raises:
    "\<lbrakk> i < length ts; ts ! i = Extracted k recipe iid response; k < length islands;
       register_recipe (islands ! k) s recipe iid response = Inl e \<rbrakk>
     \<Longrightarrow> step (islands, s, ts) (islands, s, ts[i := Failed e])"

fun finished :: "task \<Rightarrow> bool" where
  "finished Done = True"
| "finished (Failed e) = True"
| "finished _ = False"

fun is_pending :: "task \<Rightarrow> bool" where
  "is_pending (Pending k program iid response) = True"
| "is_pending _ = False"

text \<open>The state at import time: \<open>Island._programs\<close> is bound to an empty DataFrame.\<close>

definition initial_state :: pystate where
  "initial_state =
     \<lparr> frames = (\<lambda>a. empty_frame), fresh = 1, Island_programs = 0, registered = [] \<rparr>"

text \<open>
  A call passes validation individually when, run alone on a new island and the empty
  store, it leaves a row in the store.
\<close>

definition registers_alone :: "pyval \<Rightarrow> nat \<Rightarrow> response \<Rightarrow> bool" where
  "registers_alone program iid response =
     (case register_and_evaluate_program (Island 0) initial_state program iid response of
        Inl e \<Rightarrow> False
      | Inr (self', s') \<Rightarrow> store_rows s' \<noteq> [])"

text \<open>The same for a task whose recipe has been extracted, and for any task.\<close>

definition recipe_registers_alone :: "(string \<rightharpoonup> pyval) \<Rightarrow> nat \<Rightarrow> response \<Rightarrow> bool" where
  "recipe_registers_alone recipe iid response =
     (case register_recipe (Island 0) initial_state recipe iid response of
        Inl e \<Rightarrow> False
      | Inr (self', s') \<Rightarrow> store_rows s' \<noteq> [])"

fun passes :: "task \<Rightarrow> bool" where
  "passes (Pending k program iid response) = registers_alone program iid response"
| "passes (Extracted k recipe iid response) = recipe_registers_alone recipe iid response"
| "passes _ = False"

text \<open>A task names an island that exists.\<close>

fun task_ok :: "nat \<Rightarrow> task \<Rightarrow> bool" where
  "task_ok n (Pending k program iid response) = (k < n)"
| "task_ok n (Extracted k recipe iid response) = (k < n)"
| "task_ok n _ = True"

text \<open>The steps a task still has to make.\<close>

fun steps_left :: "task \<Rightarrow> nat" where
  "steps_left (Pending k program iid response) = 2"
| "steps_left (Extracted k recipe iid response) = 1"
| "steps_left _ = 0"


section \<open>Facts about \<open>np.argmax\<close> and \<open>softmax\<close>\<close>




lemma foldl_fadd_Fin: "foldl fadd (Fin a) (map Fin xs) = Fin (a + sum_list xs)"
  by (induction xs arbitrary: a) (auto simp: algebra_simps)







section \<open>Claims about Cluster\<close>



lemma argmax_scan_bound: "mi < i \<Longrightarrow> argmax_scan mp mi i xs < i + length xs"
proof (induction xs arbitrary: mp mi i)
  case Nil
  then show ?case by simp
next
  case (Cons x xs)
  have a: "argmax_scan x i (Suc i) xs < Suc i + length xs" by (rule Cons.IH) simp
  have b: "argmax_scan mp mi (Suc i) xs < Suc i + length xs" by (rule Cons.IH) (use Cons.prems in simp)
  show ?case using a b by simp
qed

lemma np_argmax_bound: "xs \<noteq> [] \<Longrightarrow> \<exists>i<length xs. np_argmax xs = Inr i"
proof -
  assume "xs \<noteq> []"
  then obtain y ys where xs: "xs = y # ys" by (cases xs) auto
  have "argmax_scan y 0 1 ys < 1 + length ys" by (rule argmax_scan_bound) simp
  then show ?thesis by (simp add: xs)
qed

lemma softmax_length:
  "xs \<noteq> [] \<Longrightarrow> \<exists>sm. softmax xs = Inr sm \<and> length sm = length xs"
  by (cases xs) (simp_all add: softmax_def Let_def)

lemma foldl_fmaximum_NaN: "foldl fmaximum NaN xs = NaN"
  by (induction xs) (simp_all add: fmaximum_def)

lemma foldl_fmaximum_has_NaN: "NaN \<in> set xs \<Longrightarrow> foldl fmaximum x xs = NaN"
proof (induction xs arbitrary: x)
  case Nil
  then show ?case by simp
next
  case (Cons y ys)
  show ?case
  proof (cases "y = NaN")
    case True
    have "fmaximum x NaN = NaN" by (cases x) (simp_all add: fmaximum_def)
    then show ?thesis using True by (simp add: foldl_fmaximum_NaN)
  next
    case False
    with Cons.prems have "NaN \<in> set ys" by simp
    then show ?thesis using Cons.IH by simp
  qed
qed

lemma np_max_NaN: "NaN \<in> set xs \<Longrightarrow> np_max xs = Inr NaN"
proof -
  assume n: "NaN \<in> set xs"
  then obtain y ys where xs: "xs = y # ys" by (cases xs) auto
  show ?thesis
  proof (cases "y = NaN")
    case True
    then show ?thesis by (simp add: xs foldl_fmaximum_NaN)
  next
    case False
    with n xs have "NaN \<in> set ys" by simp
    then show ?thesis by (simp add: xs foldl_fmaximum_has_NaN)
  qed
qed

lemma fsub_NaN: "fsub s NaN = NaN"
  by (cases s) (simp_all add: fsub_def)

lemma foldl_fadd_NaN: "foldl fadd NaN xs = NaN"
  by (induction xs) simp_all

lemma softmax_NaN:
  assumes "NaN \<in> set xs"
  shows "softmax xs = Inr (map (\<lambda>s. NaN) xs)"
  using assms by (simp add: softmax_def np_max_NaN fsub_NaN Let_def)

lemma np_argmax_all_NaN: "xs \<noteq> [] \<Longrightarrow> np_argmax (map (\<lambda>s. NaN) xs) = Inr 0"
  by (cases xs) simp_all

lemma member_scores_Scored2:
  "member_scores (map (\<lambda>(p, s). Scored p s) ps) = Inr (map snd ps)"
  by (induction ps) (auto split: prod.splits)

lemma isnan_iff: "isnan x \<longleftrightarrow> x = NaN"
  by (cases x) simp_all

text \<open>
  Claim C8 says that \<open>get_best_program\<close> never raises, also on an empty member list, and
  then returns the first member. On an empty list \<open>np.max\<close> raises ValueError.
\<close>

theorem get_best_program_empty_counterexample:
  "get_best_program \<lparr> score = Fin 1, programs = ([] :: string member list) \<rparr> = Inl ValueError"
  by (simp add: get_best_program_def softmax_def)

lemma cluster_members_scored:
  "\<exists>ps. programs (Cluster s p) = map (\<lambda>(p, s). Scored p s) ps \<and> ps \<noteq> []"
  "programs c = map (\<lambda>(p, s). Scored p s) ps \<Longrightarrow>
     programs (add_program c q t) = map (\<lambda>(p, s). Scored p s) (ps @ [(q, t)])"
proof -
  have "programs (Cluster s p) = map (\<lambda>(p, s). Scored p s) [(p, s)]"
    by (simp add: Cluster_def)
  then show "\<exists>ps. programs (Cluster s p) = map (\<lambda>(p, s). Scored p s) ps \<and> ps \<noteq> []"
    by blast
next
  assume "programs c = map (\<lambda>(p, s). Scored p s) ps"
  then show "programs (add_program c q t) = map (\<lambda>(p, s). Scored p s) (ps @ [(q, t)])"
    by (simp add: add_program_def)
qed

text \<open>
  Claim C8, amended. The constructor and \<open>add_program\<close> build clusters that have at least
  one member and a score for every member. On such a cluster \<open>get_best_program\<close> does not
  raise, whatever the scores are, and it returns the first member when some score is
  \<open>nan\<close>.
\<close>

theorem get_best_program_never_raises:
  assumes ms: "programs c = map (\<lambda>(p, s). Scored p s) ps"
    and ne: "ps \<noteq> []"
  shows "(\<exists>i<length ps. get_best_program c = Inr (programs c ! i)) \<and>
         ((\<exists>m\<in>set ps. isnan (snd m)) \<longrightarrow> get_best_program c = Inr (programs c ! 0))"
proof
  from ne have sne: "map snd ps \<noteq> []" by simp
  from softmax_length[OF sne] obtain sm where sm: "softmax (map snd ps) = Inr sm"
    and len: "length sm = length ps" by auto
  from len ne have "sm \<noteq> []" by auto
  from np_argmax_bound[OF this] obtain i where i: "i < length sm" and am: "np_argmax sm = Inr i"
    by blast
  have "get_best_program c = Inr (programs c ! i)"
    unfolding get_best_program_def ms member_scores_Scored2
    using sm am i len by (simp add: list_get_def)
  then show "\<exists>i<length ps. get_best_program c = Inr (programs c ! i)"
    using i len by auto
next
  show "(\<exists>m\<in>set ps. isnan (snd m)) \<longrightarrow> get_best_program c = Inr (programs c ! 0)"
  proof
    assume "\<exists>m\<in>set ps. isnan (snd m)"
    then have n: "NaN \<in> set (map snd ps)" by (force simp: isnan_iff)
    from ne have sne: "map snd ps \<noteq> []" by simp
    show "get_best_program c = Inr (programs c ! 0)"
      unfolding get_best_program_def ms member_scores_Scored2
      using softmax_NaN[OF n] np_argmax_all_NaN[OF sne] ne
      by (simp add: list_get_def)
  qed
qed

theorem get_best_program_never_raises_witness:
  "get_best_program (add_program (add_program (Cluster (Fin 1) ''a'') ''b'' NaN) ''c'' (Fin 3))
     = Inr (Scored ''a'' (Fin 1))"
proof -
  define c where "c = add_program (add_program (Cluster (Fin 1) ''a'') ''b'' NaN) ''c'' (Fin 3)"
  define ps :: "(string \<times> pyfloat) list" where "ps = [(''a'', Fin 1), (''b'', NaN), (''c'', Fin 3)]"
  have ms: "programs c = map (\<lambda>(p, s). Scored p s) ps"
    by (simp add: c_def ps_def add_program_def Cluster_def)
  have ne: "ps \<noteq> []" by (simp add: ps_def)
  have n: "\<exists>m\<in>set ps. isnan (snd m)" by (simp add: ps_def)
  from get_best_program_never_raises[OF ms ne] n
  have "get_best_program c = Inr (programs c ! 0)" by blast
  then show ?thesis by (simp add: c_def add_program_def Cluster_def)
qed













section \<open>Claims about \<open>register_and_evaluate_program\<close>\<close>

lemma check_scores_typed:
  "list_all float_or_none ss \<Longrightarrow>
     (if list_all present_number ss
      then \<exists>fs. ss = map PFloat fs \<and> (\<forall>f\<in>set fs. \<not> isnan f) \<and> check_scores ss = Inr (Some fs)
      else check_scores ss = Inr None)"
proof (induction ss)
  case Nil
  then show ?case by simp
next
  case (Cons v ss)
  then have t: "float_or_none v" and ts: "list_all float_or_none ss" by simp_all
  note IH = Cons.IH[OF ts]
  show ?case
  proof (cases v)
    case PNone
    then show ?thesis by simp
  next
    case (PFloat f)
    show ?thesis
    proof (cases "isnan f")
      case True
      with PFloat show ?thesis by simp
    next
      case nf: False
      show ?thesis
      proof (cases "list_all present_number ss")
        case True
        with IH obtain fs where fs: "ss = map PFloat fs" "\<forall>f\<in>set fs. \<not> isnan f"
          "check_scores ss = Inr (Some fs)" by auto
        have a: "v # ss = map PFloat (f # fs)" using PFloat fs by simp
        have b: "\<forall>g\<in>set (f # fs). \<not> isnan g" using nf fs by simp
        have c: "check_scores (v # ss) = Inr (Some (f # fs))" using PFloat nf fs by simp
        have "\<exists>gs. v # ss = map PFloat gs \<and> (\<forall>g\<in>set gs. \<not> isnan g) \<and>
            check_scores (v # ss) = Inr (Some gs)"
          by (rule exI[of _ "f # fs"]) (use a b c in blast)
        moreover have "list_all present_number (v # ss)" using True PFloat nf by simp
        ultimately show ?thesis by simp
      next
        case False
        with IH have "check_scores ss = Inr None" by simp
        with False PFloat nf show ?thesis by simp
      qed
    qed
  next
    case (PStr x)
    with t show ?thesis by simp
  next
    case (PList x)
    with t show ?thesis by simp
  next
    case (PDict x)
    with t show ?thesis by simp
  qed
qed

lemma check_scores_seven_None: "check_scores (replicate 7 PNone) = Inr None"
  by (simp add: numeral_eq_Suc)

lemma validate_scores_typed:
  assumes wt: "well_typed response"
  shows "if seven_scores response \<and> weighted_not_nan response
         then \<exists>fs w. length fs = 7 \<and> resp_scores response = Some (PList (map PFloat fs)) \<and>
                     (\<forall>f\<in>set fs. \<not> isnan f) \<and>
                     resp_weighted_score response = Some (PFloat w) \<and> \<not> isnan w \<and>
                     validate_scores response = Inr (Some (fs, w))
         else validate_scores response = Inr None"
proof (cases "resp_scores response")
  case None
  then show ?thesis
    by (simp add: seven_scores_def validate_scores_def check_scores_seven_None)
next
  case (Some v)
  show ?thesis
  proof (cases v)
    case (PList ss)
    from wt Some PList have ts: "list_all float_or_none ss" by (simp add: well_typed_def)
    note cs = check_scores_typed[OF ts]
    show ?thesis
    proof (cases "length ss = 7 \<and> list_all present_number ss")
      case False
      then have "\<not> seven_scores response" using Some PList by (simp add: seven_scores_def)
      moreover have "validate_scores response = Inr None"
        using False cs Some PList by (auto simp: validate_scores_def)
      ultimately show ?thesis by simp
    next
      case True
      then have sev: "seven_scores response" using Some PList by (simp add: seven_scores_def)
      from True cs obtain fs where fs: "ss = map PFloat fs" "\<forall>f\<in>set fs. \<not> isnan f"
        "check_scores ss = Inr (Some fs)" by auto
      have len: "length fs = 7" using True fs(1) by simp
      show ?thesis
      proof (cases "resp_weighted_score response")
        case None
        then show ?thesis
          using Some PList True fs by (simp add: weighted_not_nan_def validate_scores_def)
      next
        case w: (Some wv)
        from wt w have tw: "float_or_none wv" by (simp add: well_typed_def)
        show ?thesis
        proof (cases wv)
          case PNone
          then show ?thesis
            using Some PList True fs w by (simp add: weighted_not_nan_def validate_scores_def)
        next
          case (PFloat x)
          show ?thesis
          proof (cases "isnan x")
            case True
            then show ?thesis
              using Some PList \<open>length ss = 7 \<and> list_all present_number ss\<close> fs w PFloat
              by (simp add: weighted_not_nan_def validate_scores_def)
          next
            case False
            then have wn: "weighted_not_nan response" using w PFloat
              by (simp add: weighted_not_nan_def)
            have "validate_scores response = Inr (Some (fs, x))"
              using Some PList True fs w PFloat False by (simp add: validate_scores_def)
            then show ?thesis using sev wn len fs Some PList w PFloat False by auto
          qed
        next
          case (PStr x)
          with tw show ?thesis by simp
        next
          case (PList x)
          with tw show ?thesis by simp
        next
          case (PDict x)
          with tw show ?thesis by simp
        qed
      qed
    qed
  next
    case PNone
    then show ?thesis using Some by (simp add: seven_scores_def validate_scores_def)
  next
    case (PFloat x)
    then show ?thesis using Some by (simp add: seven_scores_def validate_scores_def)
  next
    case (PStr x)
    then show ?thesis using Some by (simp add: seven_scores_def validate_scores_def)
  next
    case (PDict x)
    then show ?thesis using Some by (simp add: seven_scores_def validate_scores_def)
  qed
qed

lemma length_seven:
  "length fs = 7 \<Longrightarrow> \<exists>a b c d e f g. fs = [a, b, c, d, e, f, g]"
  by (auto simp: numeral_eq_Suc length_Suc_conv)

lemma missing_fields_empty:
  "missing_fields recipe (norm_instructions (recipe ''instructions''))
     (norm_ingredients (recipe ''ingredients'')) = [] \<longleftrightarrow> fields_present recipe"
  by (auto simp: missing_fields_def fields_present_def)



lemma store_rows_append_program: "store_rows (append_program s r) = store_rows s @ [r]"
  by (simp add: append_program_def new_frame_def store_rows_def concat_row_def)

lemma register_recipe_accept:
  assumes "missing_fields recipe (norm_instructions (recipe ''instructions''))
     (norm_ingredients (recipe ''ingredients'')) = []"
    and "validate_scores response = Inr (Some ([a, b, c, d, e, f, g], w))"
  shows "register_recipe self s recipe iid response =
     Inr (update_best_program self
            (formatted_data recipe iid response (norm_ingredients (recipe ''ingredients''))
               (norm_instructions (recipe ''instructions'')) a b c d e f g w),
          append_program s
            (formatted_data recipe iid response (norm_ingredients (recipe ''ingredients''))
               (norm_instructions (recipe ''instructions'')) a b c d e f g w))"
  unfolding register_recipe_def Let_def using assms by simp

lemma register_recipe_reject:
  assumes "missing_fields recipe (norm_instructions (recipe ''instructions''))
     (norm_ingredients (recipe ''ingredients'')) \<noteq> [] \<or> validate_scores response = Inr None"
  shows "register_recipe self s recipe iid response = Inr (self, s)"
  unfolding register_recipe_def Let_def using assms by auto

lemma well_typed_extract_scores:
  "well_typed (extract_scores_from_response jl t iid)"
proof -
  have a: "list_all float_or_none (map (\<lambda>key. case sc key of None \<Rightarrow> PNone | Some f \<Rightarrow> PFloat f) ks)"
    for sc :: "string \<rightharpoonup> pyfloat" and ks
    by (induction ks) (auto split: option.splits)
  show ?thesis
    unfolding extract_scores_from_response_def Let_def well_typed_def
    by (simp add: a)
qed

lemma well_typed_empty: "well_typed empty_response"
  by (simp add: well_typed_def empty_response_def)

lemma well_typed_evaluate: "well_typed (evaluate_recipe_with_llm env recipe iid m tag)"
  by (simp add: evaluate_recipe_with_llm_def Let_def well_typed_extract_scores well_typed_empty
      split: http_reply.splits)

text \<open>What a registration of a string program with a well-typed response does.\<close>

lemma register_outcome:
  assumes wt: "well_typed response"
  shows "\<exists>self' s'.
           register_and_evaluate_program self s (PStr t) iid response = Inr (self', s') \<and>
           (if accepted t response
            then \<exists>r. s' = append_program s r \<and> self' = update_best_program self r \<and>
                     col_island_id r = (case resp_island_id response of None \<Rightarrow> iid | Some i \<Rightarrow> i) \<and>
                     resp_weighted_score response = Some (PFloat (col_weighted_score r)) \<and>
                     resp_scores response =
                       Some (PList (map PFloat
                         [col_taste r, col_appearance r, col_creativity r, col_crowd_appeal r,
                          col_recipe_ties_story r, col_story_brings_to_life r, col_passion r])) \<and>
                     col_ingredients r = norm_ingredients (recipe_details t ''ingredients'') \<and>
                     col_instructions r = norm_instructions (recipe_details t ''instructions'')
            else self' = self \<and> s' = s)"
proof -
  define recipe where "recipe = recipe_details t"
  have reg: "register_and_evaluate_program self s (PStr t) iid response =
             register_recipe self s recipe iid response"
    by (simp add: register_and_evaluate_program_def extract_recipe_details_def recipe_def)
  note mf = missing_fields_empty[of recipe]
  note vs = validate_scores_typed[OF wt]
  show ?thesis
  proof (cases "accepted t response")
    case False
    then have "missing_fields recipe (norm_instructions (recipe ''instructions''))
         (norm_ingredients (recipe ''ingredients'')) \<noteq> [] \<or> validate_scores response = Inr None"
      using mf vs by (auto simp: accepted_def recipe_def)
    from register_recipe_reject[OF this]
    have "register_recipe self s recipe iid response = Inr (self, s)" .
    with False show ?thesis unfolding reg by simp
  next
    case True
    then have tr: "fields_present recipe" "seven_scores response \<and> weighted_not_nan response"
      by (simp_all add: accepted_def recipe_def)
    with vs obtain fs w where fs: "length fs = 7"
      "resp_scores response = Some (PList (map PFloat fs))"
      "resp_weighted_score response = Some (PFloat w)"
      "validate_scores response = Inr (Some (fs, w))" by auto
    from length_seven[OF fs(1)] obtain a b c d e f g where l: "fs = [a, b, c, d, e, f, g]"
      by blast
    define r where "r = formatted_data recipe iid response (norm_ingredients (recipe ''ingredients''))
               (norm_instructions (recipe ''instructions'')) a b c d e f g w"
    have m: "missing_fields recipe (norm_instructions (recipe ''instructions''))
         (norm_ingredients (recipe ''ingredients'')) = []" using tr mf by simp
    have res: "register_recipe self s recipe iid response =
               Inr (update_best_program self r, append_program s r)"
      unfolding r_def by (rule register_recipe_accept[OF m fs(4)[unfolded l]])
    have p: "append_program s r = append_program s r \<and>
            update_best_program self r = update_best_program self r \<and>
            col_island_id r = (case resp_island_id response of None \<Rightarrow> iid | Some i \<Rightarrow> i) \<and>
            resp_weighted_score response = Some (PFloat (col_weighted_score r)) \<and>
            resp_scores response =
              Some (PList (map PFloat
                [col_taste r, col_appearance r, col_creativity r, col_crowd_appeal r,
                 col_recipe_ties_story r, col_story_brings_to_life r, col_passion r])) \<and>
            col_ingredients r = norm_ingredients (recipe_details t ''ingredients'') \<and>
            col_instructions r = norm_instructions (recipe_details t ''instructions'')"
      using fs(2,3) l by (simp add: r_def formatted_data_def recipe_def)
    show ?thesis
      unfolding reg res
      apply (rule exI[of _ "update_best_program self r"])
      apply (rule exI[of _ "append_program s r"])
      apply (simp only: True if_True simp_thms)
      apply (rule exI[of _ r])
      apply (rule p)
      done
  qed
qed




section \<open>Claims about \<open>extract_scores_from_response\<close>\<close>

text \<open>
  Claim C6. Tier 2 is to accept a value only when it lies in [1,5]. Its pattern takes a
  digit 1 to 5 and any decimal fraction after it: on the text \<open>taste: 5.9\<close> it yields
  5.9, which is above 5. On the text \<open>"taste": 4\<close> without a brace-delimited block it
  yields 4.0, as the claim says.
\<close>

theorem tier2_accepts_value_above_5:
  "resp_scores (extract_scores_from_response sample_loads ''taste: 5.9'' 0) =
     Some (PList [PFloat (Fin 5.9), PNone, PNone, PNone, PNone, PNone, PNone]) \<and>
   \<not> fle (Fin 5.9) (Fin 5) \<and>
   resp_scores (extract_scores_from_response sample_loads (quoted ''taste'' @ '': 4'') 0) =
     Some (PList [PFloat (Fin 4), PNone, PNone, PNone, PNone, PNone, PNone])"
proof (intro conjI)
  show "resp_scores (extract_scores_from_response sample_loads ''taste: 5.9'' 0) =
     Some (PList [PFloat (Fin 5.9), PNone, PNone, PNone, PNone, PNone, PNone])"
    by code_simp
  show "\<not> fle (Fin 5.9) (Fin 5)" by simp
  show "resp_scores (extract_scores_from_response sample_loads (quoted ''taste'' @ '': 4'') 0) =
     Some (PList [PFloat (Fin 4), PNone, PNone, PNone, PNone, PNone, PNone])"
    by code_simp
qed







section \<open>Claims about \<open>initialize_programs\<close>\<close>

lemma register_typed:
  assumes wt: "well_typed response"
  shows "(accepted t response \<longrightarrow>
            (\<exists>r. register_and_evaluate_program self s (PStr t) iid response =
                    Inr (update_best_program self r, append_program s r) \<and>
                  col_island_id r = (case resp_island_id response of None \<Rightarrow> iid | Some i \<Rightarrow> i))) \<and>
         (\<not> accepted t response \<longrightarrow>
            register_and_evaluate_program self s (PStr t) iid response = Inr (self, s))"
  using register_outcome[OF wt, of self s t iid] by (cases "accepted t response") auto

lemma length_store_rows_append: "length (store_rows (append_program s r)) = Suc (length (store_rows s))"
  by (simp add: store_rows_append_program)

lemma initialize_loop_step:
  "initialize_loop env allow cap m a self s =
     (if generate_recipe env self (Suc a) = [] \<or>
         \<not> accepted (generate_recipe env self (Suc a))
             (evaluate_recipe_with_llm env (PStr (generate_recipe env self (Suc a)))
                (island_id self) m [island_id self, Suc a])
      then (if \<not> allow \<and> cap \<le> Suc a then Some (Inr (Suc a, self, s))
            else initialize_loop env allow cap m (Suc a) self s)
      else (case register_and_evaluate_program self s (PStr (generate_recipe env self (Suc a)))
                   (island_id self)
                   (evaluate_recipe_with_llm env (PStr (generate_recipe env self (Suc a)))
                      (island_id self) m [island_id self, Suc a]) of
              Inr (self', s') \<Rightarrow> Some (Inr (Suc a, self', s'))
            | Inl e \<Rightarrow> Some (Inl e)))"
proof -
  define p where "p = generate_recipe env self (Suc a)"
  define resp where "resp = evaluate_recipe_with_llm env (PStr p) (island_id self) m [island_id self, Suc a]"
  have wt: "well_typed resp" unfolding resp_def by (rule well_typed_evaluate)
  note rt = register_typed[OF wt, of p self s "island_id self"]
  show ?thesis
  proof (cases "p = []")
    case True
    then show ?thesis
      by (subst initialize_loop.simps) (simp add: p_def[symmetric] Let_def)
  next
    case ne: False
    show ?thesis
    proof (cases "accepted p resp")
      case True
      with rt obtain r where r: "register_and_evaluate_program self s (PStr p) (island_id self) resp =
                    Inr (update_best_program self r, append_program s r)" by blast
      show ?thesis
        apply (subst initialize_loop.simps)
        apply (simp add: p_def[symmetric] resp_def[symmetric] Let_def ne True r
            length_store_rows_append)
        done
    next
      case False
      with rt have r: "register_and_evaluate_program self s (PStr p) (island_id self) resp =
                    Inr (self, s)" by blast
      show ?thesis
        apply (subst initialize_loop.simps)
        apply (simp add: p_def[symmetric] resp_def[symmetric] Let_def ne False r)
        done
    qed
  qed
qed


lemma initialize_loop_bounded:
  "\<exists>n self' s'. initialize_loop env False cap m a self s = Some (Inr (n, self', s')) \<and>
      a < n \<and> n \<le> max cap (Suc a) \<and>
      (self' = self \<and> s' = s \<or> (\<exists>r. self' = update_best_program self r \<and> s' = append_program s r))"
proof (induction "cap - a" arbitrary: a rule: less_induct)
  case less
  define p where "p = generate_recipe env self (Suc a)"
  define resp where "resp = evaluate_recipe_with_llm env (PStr p) (island_id self) m [island_id self, Suc a]"
  have wt: "well_typed resp" unfolding resp_def by (rule well_typed_evaluate)
  note rt = register_typed[OF wt, of p self s "island_id self"]
  note st = initialize_loop_step[of env False cap m a self s, folded p_def, folded resp_def]
  show ?case
  proof (cases "p = [] \<or> \<not> accepted p resp")
    case retry: True
    show ?thesis
    proof (cases "cap \<le> Suc a")
      case True
      with retry st have "initialize_loop env False cap m a self s = Some (Inr (Suc a, self, s))"
        by simp
      then show ?thesis by auto
    next
      case False
      with retry st have eq: "initialize_loop env False cap m a self s =
          initialize_loop env False cap m (Suc a) self s" by simp
      from False have "cap - Suc a < cap - a" by arith
      from less[OF this] obtain n self' s' where
        "initialize_loop env False cap m (Suc a) self s = Some (Inr (n, self', s'))"
        "Suc a < n" "n \<le> max cap (Suc (Suc a))"
        "self' = self \<and> s' = s \<or> (\<exists>r. self' = update_best_program self r \<and> s' = append_program s r)"
        by blast
      moreover have "max cap (Suc (Suc a)) \<le> max cap (Suc a)" using False by simp
      ultimately show ?thesis unfolding eq
        by (intro exI[of _ n] exI[of _ self'] exI[of _ s']) auto
    qed
  next
    case False
    then have acc: "accepted p resp" by simp
    with rt obtain r where r: "register_and_evaluate_program self s (PStr p) (island_id self) resp =
                    Inr (update_best_program self r, append_program s r)" by blast
    from False st r have "initialize_loop env False cap m a self s =
        Some (Inr (Suc a, update_best_program self r, append_program s r))" by simp
    then show ?thesis by auto
  qed
qed

lemma initialize_loop_skip:
  assumes "\<forall>k. a < k \<and> k < n \<longrightarrow> generate_recipe env self k = []"
    and "a < n" and "allow \<or> n \<le> cap"
  shows "initialize_loop env allow cap m a self s = initialize_loop env allow cap m (n - 1) self s"
  using assms
proof (induction "n - a" arbitrary: a rule: less_induct)
  case less
  show ?case
  proof (cases "Suc a = n")
    case True
    then show ?thesis by auto
  next
    case False
    with less.prems have lt: "Suc a < n" by simp
    with less.prems have e: "generate_recipe env self (Suc a) = []" by simp
    have nc: "\<not> (\<not> allow \<and> cap \<le> Suc a)" using lt less.prems(3) by auto
    have "initialize_loop env allow cap m a self s = initialize_loop env allow cap m (Suc a) self s"
      using initialize_loop_step[of env allow cap m a self s] e nc by simp
    also have "\<dots> = initialize_loop env allow cap m (n - 1) self s"
    proof (rule less.hyps)
      show "n - Suc a < n - a" using lt by arith
      show "\<forall>k. Suc a < k \<and> k < n \<longrightarrow> generate_recipe env self k = []"
        using less.prems(1) by auto
      show "Suc a < n" by (rule lt)
      show "allow \<or> n \<le> cap" by (rule less.prems(3))
    qed
    finally show ?thesis .
  qed
qed

lemma initialize_loop_gives_up:
  assumes "\<forall>k. a < k \<and> k \<le> cap \<longrightarrow> generate_recipe env self k = []" and "a < cap"
  shows "initialize_loop env False cap m a self s = Some (Inr (cap, self, s))"
proof -
  have "initialize_loop env False cap m a self s = initialize_loop env False cap m (cap - 1) self s"
    by (rule initialize_loop_skip) (use assms in auto)
  also have "\<dots> = Some (Inr (cap, self, s))"
    using initialize_loop_step[of env False cap m "cap - 1" self s] assms by simp
  finally show ?thesis .
qed

lemma initialize_loop_success:
  assumes "\<forall>k. a < k \<and> k < n \<longrightarrow> generate_recipe env self k = []"
    and "a < n" and "allow \<or> n \<le> cap"
    and "generate_recipe env self n \<noteq> []"
    and "accepted (generate_recipe env self n)
           (evaluate_recipe_with_llm env (PStr (generate_recipe env self n))
              (island_id self) m [island_id self, n])"
  shows "\<exists>r. initialize_loop env allow cap m a self s =
           Some (Inr (n, update_best_program self r, append_program s r)) \<and>
           col_island_id r = island_id self"
proof -
  define p where "p = generate_recipe env self n"
  define resp where "resp = evaluate_recipe_with_llm env (PStr p) (island_id self) m [island_id self, n]"
  have wt: "well_typed resp" unfolding resp_def by (rule well_typed_evaluate)
  have n: "Suc (n - 1) = n" using assms(2) by simp
  have rid: "resp_island_id resp = Some (island_id self) \<or> \<not> accepted p resp"
    unfolding resp_def evaluate_recipe_with_llm_def Let_def
    by (auto simp: extract_scores_from_response_def Let_def accepted_def empty_response_def
        seven_scores_def split: http_reply.splits)
  from register_typed[OF wt, of p self s "island_id self"] assms(5) rid
  obtain r where r: "register_and_evaluate_program self s (PStr p) (island_id self) resp =
                    Inr (update_best_program self r, append_program s r)"
    "col_island_id r = island_id self"
    unfolding p_def[symmetric] resp_def[symmetric] by auto
  have "initialize_loop env allow cap m a self s = initialize_loop env allow cap m (n - 1) self s"
    by (rule initialize_loop_skip) (use assms in auto)
  also have "\<dots> = Some (Inr (n, update_best_program self r, append_program s r))"
    using initialize_loop_step[of env allow cap m "n - 1" self s] assms(4,5) r
    unfolding n p_def[symmetric] resp_def[symmetric] by simp
  finally show ?thesis using r(2) by blast
qed

text \<open>
  Claim C3. With \<open>allow_infinite_retries=False\<close>, \<open>initialize_programs\<close> returns after at
  most 100 attempts and does not raise, whatever the generator and the evaluator reply.
  When the generator gives the empty text on the attempts 1 to 99 and a text that is
  registered with its evaluation on attempt 100, the run ends at attempt 100 with one
  more row in the store; the same loop with the cap 50 in the place of the constant 100
  ends at attempt 50 with the island and the store as they were.
\<close>

theorem initialize_programs_bounded:
  "(\<exists>n self' s'. initialize_programs env self s m False = Some (Inr (n, self', s')) \<and>
                   1 \<le> n \<and> n \<le> 100) \<and>
   ((\<forall>k. 1 \<le> k \<and> k < 100 \<longrightarrow> generate_recipe env self k = []) \<and>
    generate_recipe env self 100 \<noteq> [] \<and>
    accepted (generate_recipe env self 100)
      (evaluate_recipe_with_llm env (PStr (generate_recipe env self 100))
         (island_id self) m [island_id self, 100]) \<longrightarrow>
      (\<exists>self' s' r. initialize_programs env self s m False = Some (Inr (100, self', s')) \<and>
                     store_rows s' = store_rows s @ [r]) \<and>
      initialize_loop env False 50 m 0 self s = Some (Inr (50, self, s)))"
proof (intro conjI impI)
  from initialize_loop_bounded[of env 100 m 0 self s]
  show "\<exists>n self' s'. initialize_programs env self s m False = Some (Inr (n, self', s')) \<and>
                   1 \<le> n \<and> n \<le> 100"
    unfolding initialize_programs_def by auto
next
  assume h: "(\<forall>k. 1 \<le> k \<and> k < 100 \<longrightarrow> generate_recipe env self k = []) \<and>
    generate_recipe env self 100 \<noteq> [] \<and>
    accepted (generate_recipe env self 100)
      (evaluate_recipe_with_llm env (PStr (generate_recipe env self 100))
         (island_id self) m [island_id self, 100])"
  have "\<exists>r. initialize_loop env False 100 m 0 self s =
           Some (Inr (100, update_best_program self r, append_program s r)) \<and>
           col_island_id r = island_id self"
    by (rule initialize_loop_success) (use h in auto)
  then show "\<exists>self' s' r. initialize_programs env self s m False = Some (Inr (100, self', s')) \<and>
                     store_rows s' = store_rows s @ [r]"
    unfolding initialize_programs_def using store_rows_append_program by blast
next
  assume h: "(\<forall>k. 1 \<le> k \<and> k < 100 \<longrightarrow> generate_recipe env self k = []) \<and>
    generate_recipe env self 100 \<noteq> [] \<and>
    accepted (generate_recipe env self 100)
      (evaluate_recipe_with_llm env (PStr (generate_recipe env self 100))
         (island_id self) m [island_id self, 100])"
  show "initialize_loop env False 50 m 0 self s = Some (Inr (50, self, s))"
    by (rule initialize_loop_gives_up) (use h in auto)
qed

theorem initialize_programs_bounded_witness:
  "(\<exists>self' s' r. initialize_programs sample_env (Island 0) initial_state ''good'' False =
                    Some (Inr (100, self', s')) \<and> store_rows s' = [r]) \<and>
   initialize_loop sample_env False 50 ''good'' 0 (Island 0) initial_state =
     Some (Inr (50, Island 0, initial_state))"
proof -
  have e: "\<forall>k. 1 \<le> k \<and> k < 100 \<longrightarrow> generate_recipe sample_env (Island 0) k = []"
    by (simp add: generate_recipe_def sample_env_def)
  have g: "generate_recipe sample_env (Island 0) 100 = sample_program"
    by code_simp
  have ne: "sample_program \<noteq> []" by code_simp
  have acc: "accepted sample_program
      (evaluate_recipe_with_llm sample_env (PStr sample_program)
         (island_id (Island 0)) ''good'' [island_id (Island 0), 100])"
    by code_simp
  have st: "store_rows initial_state = []"
    by (simp add: store_rows_def initial_state_def empty_frame_def)
  from initialize_programs_bounded[of sample_env "Island 0" initial_state "''good''"]
  show ?thesis using e g ne acc st by simp
qed

section \<open>Claims about interleaved registrations\<close>

lemma check_scores_length: "check_scores ss = Inr (Some fs) \<Longrightarrow> length fs = length ss"
proof (induction ss arbitrary: fs)
  case Nil
  then show ?case by simp
next
  case (Cons v ss)
  show ?case
  proof (cases v)
    case (PFloat f)
    with Cons.prems obtain gs where "check_scores ss = Inr (Some gs)" "fs = f # gs"
      by (auto split: if_splits sum.splits option.splits)
    with Cons.IH show ?thesis by simp
  qed (use Cons.prems in auto)
qed

lemma validate_scores_length:
  "validate_scores response = Inr (Some (fs, w)) \<Longrightarrow> length fs = 7"
  unfolding validate_scores_def
  by (auto split: pyval.splits option.splits if_splits sum.splits dest: check_scores_length)

text \<open>The outcome of the body of a registration does not depend on the island or the state.\<close>

lemma register_recipe_cases:
  "(\<exists>e. \<forall>self s. register_recipe self s recipe iid response = Inl e) \<or>
   (\<forall>self s. register_recipe self s recipe iid response = Inr (self, s)) \<or>
   (\<exists>r. \<forall>self s. register_recipe self s recipe iid response =
                      Inr (update_best_program self r, append_program s r))"
proof (cases "missing_fields recipe (norm_instructions (recipe ''instructions''))
     (norm_ingredients (recipe ''ingredients'')) = []")
  case False
  then have "\<forall>self s. register_recipe self s recipe iid response = Inr (self, s)"
    using register_recipe_reject by blast
  then show ?thesis by blast
next
  case m: True
  show ?thesis
  proof (cases "validate_scores response")
    case (Inl e)
    then have "\<forall>self s. register_recipe self s recipe iid response = Inl e"
      using m by (simp add: register_recipe_def Let_def)
    then show ?thesis by blast
  next
    case (Inr v)
    show ?thesis
    proof (cases v)
      case None
      with Inr have "\<forall>self s. register_recipe self s recipe iid response = Inr (self, s)"
        using register_recipe_reject by blast
      then show ?thesis by blast
    next
      case (Some fw)
      obtain fs w where fw: "fw = (fs, w)" by (cases fw) auto
      from Inr Some fw have v: "validate_scores response = Inr (Some (fs, w))" by simp
      from length_seven[OF validate_scores_length[OF v]]
      obtain a b c d e f g where l: "fs = [a, b, c, d, e, f, g]" by blast
      have "\<forall>self s. register_recipe self s recipe iid response =
          Inr (update_best_program self
            (formatted_data recipe iid response (norm_ingredients (recipe ''ingredients''))
               (norm_instructions (recipe ''instructions'')) a b c d e f g w),
          append_program s
            (formatted_data recipe iid response (norm_ingredients (recipe ''ingredients''))
               (norm_instructions (recipe ''instructions'')) a b c d e f g w))"
        using register_recipe_accept[OF m v[unfolded l]] by blast
      then show ?thesis by blast
    qed
  qed
qed

lemma store_rows_initial: "store_rows initial_state = []"
  by (simp add: store_rows_def initial_state_def empty_frame_def)

lemma register_recipe_grows:
  assumes "register_recipe self s recipe iid response = Inr (self', s')"
  shows "length (store_rows s') =
         length (store_rows s) + (if recipe_registers_alone recipe iid response then 1 else 0)"
proof -
  from register_recipe_cases[of recipe iid response]
  consider (err) e where "\<forall>self s. register_recipe self s recipe iid response = Inl e"
    | (rej) "\<forall>self s. register_recipe self s recipe iid response = Inr (self, s)"
    | (acc) r where "\<forall>self s. register_recipe self s recipe iid response =
                      Inr (update_best_program self r, append_program s r)"
    by blast
  then show ?thesis
  proof cases
    case err
    with assms show ?thesis by simp
  next
    case rej
    then have "\<not> recipe_registers_alone recipe iid response"
      by (simp add: recipe_registers_alone_def store_rows_initial)
    moreover from rej assms have "s' = s" by simp
    ultimately show ?thesis by simp
  next
    case acc
    then have "recipe_registers_alone recipe iid response"
      by (simp add: recipe_registers_alone_def store_rows_append_program)
    moreover from acc assms have "s' = append_program s r" by simp
    ultimately show ?thesis by (simp add: store_rows_append_program)
  qed
qed

lemma register_recipe_raises:
  assumes "register_recipe self s recipe iid response = Inl e"
  shows "\<not> recipe_registers_alone recipe iid response"
proof -
  from register_recipe_cases[of recipe iid response] assms
  have "\<forall>self s. register_recipe self s recipe iid response = Inl e"
    by (metis Inl_Inr_False sum.inject(1))
  then show ?thesis by (simp add: recipe_registers_alone_def)
qed

lemma passes_extracted:
  "extract_recipe_details program = Inr recipe \<Longrightarrow>
     registers_alone program iid response = recipe_registers_alone recipe iid response"
  by (simp add: registers_alone_def recipe_registers_alone_def register_and_evaluate_program_def)

lemma passes_extract_raises:
  "extract_recipe_details program = Inl e \<Longrightarrow> \<not> registers_alone program iid response"
  by (simp add: registers_alone_def register_and_evaluate_program_def)

lemma count_update:
  "i < length ts \<Longrightarrow>
     length (filter P (ts[i := t])) + (if P (ts ! i) then 1 else 0) =
     length (filter P ts) + (if P t then 1 else (0::nat))"
proof (induction ts arbitrary: i)
  case Nil
  then show ?case by simp
next
  case (Cons a ts)
  show ?case
  proof (cases i)
    case 0
    then show ?thesis by simp
  next
    case (Suc j)
    with Cons.prems have "j < length ts" by simp
    from Cons.IH[OF this] Suc show ?thesis by simp
  qed
qed

lemma step_invariant:
  assumes "step c c'"
  shows "length (store_rows (fst (snd c'))) + length (filter passes (snd (snd c'))) =
         length (store_rows (fst (snd c))) + length (filter passes (snd (snd c)))"
  using assms
proof (induction rule: step.induct)
  case (step_extract i ts k program iid response recipe islands s)
  have "passes (Extracted k recipe iid response) = passes (ts ! i)"
    using step_extract passes_extracted by simp
  with count_update[OF step_extract(1), of passes "Extracted k recipe iid response"]
  show ?case by simp
next
  case (step_extract_raises i ts k program iid response e islands s)
  have "\<not> passes (ts ! i)" using step_extract_raises passes_extract_raises by simp
  with count_update[OF step_extract_raises(1), of passes "Failed e"]
  show ?case by simp
next
  case (step_register i ts k recipe iid response islands s self' s')
  from register_recipe_grows[OF step_register(4)]
  have g: "length (store_rows s') =
         length (store_rows s) + (if passes (ts ! i) then 1 else 0)"
    using step_register(2) by simp
  from count_update[OF step_register(1), of passes Done] g
  show ?case by simp
next
  case (step_register_raises i ts k recipe iid response islands s e)
  have "\<not> passes (ts ! i)"
    using step_register_raises register_recipe_raises by simp
  with count_update[OF step_register_raises(1), of passes "Failed e"]
  show ?case by simp
qed

lemma steps_invariant:
  assumes "step\<^sup>*\<^sup>* c c'"
  shows "length (store_rows (fst (snd c'))) + length (filter passes (snd (snd c'))) =
         length (store_rows (fst (snd c))) + length (filter passes (snd (snd c)))"
  using assms by (induction rule: rtranclp_induct) (simp_all add: step_invariant)

lemma finished_not_passes: "finished t \<Longrightarrow> \<not> passes t"
  by (cases t) simp_all

text \<open>
  Claim C9. The registrations are tasks that the scheduler may interleave at their
  \<open>await\<close>. Whatever the order of the steps, when every task has ended the store has
  grown by exactly the number of tasks that pass validation on their own.
\<close>

theorem interleaved_registrations_store_size:
  assumes "step\<^sup>*\<^sup>* (islands, s, ts) (islands', s', ts')"
    and "list_all finished ts'"
  shows "length (store_rows s') = length (store_rows s) + length (filter passes ts)"
proof -
  from assms(2) have "filter passes ts' = []"
    by (auto simp: list_all_iff filter_empty_conv finished_not_passes)
  with steps_invariant[OF assms(1)] show ?thesis by simp
qed


lemma steps_left_update:
  "i < length ts \<Longrightarrow>
     sum_list (map steps_left (ts[i := t])) + steps_left (ts ! i) =
     sum_list (map steps_left ts) + steps_left t"
proof (induction ts arbitrary: i)
  case Nil
  then show ?case by simp
next
  case (Cons a ts)
  show ?case
  proof (cases i)
    case 0
    then show ?thesis by simp
  next
    case (Suc j)
    with Cons.prems have "j < length ts" by simp
    from Cons.IH[OF this] Suc show ?thesis by simp
  qed
qed

lemma list_all_update:
  "list_all P ts \<Longrightarrow> P t \<Longrightarrow> list_all P (ts[i := t])"
  by (induction ts arbitrary: i) (auto split: nat.splits)

lemma unfinished_task:
  "\<not> list_all finished ts \<Longrightarrow> \<exists>i<length ts. \<not> finished (ts ! i)"
  by (auto simp: list_all_iff in_set_conv_nth)

lemma task_can_step:
  assumes i: "i < length ts" and nf: "\<not> finished (ts ! i)"
    and ok: "list_all (task_ok (length islands)) ts"
  shows "\<exists>islands' s' t. step (islands, s, ts) (islands', s', ts[i := t]) \<and>
           steps_left t < steps_left (ts ! i) \<and> task_ok (length islands) t \<and>
           length islands' = length islands"
proof (cases "ts ! i")
  case (Pending k program iid response)
  show ?thesis
  proof (cases "extract_recipe_details program")
    case (Inl e)
    from step_extract_raises[OF i Pending Inl, of islands s] Pending
    show ?thesis by (intro exI[of _ islands] exI[of _ s] exI[of _ "Failed e"]) simp
  next
    case (Inr recipe)
    from ok i Pending have "k < length islands" by (auto simp: list_all_length)
    with step_extract[OF i Pending Inr, of islands s] Pending
    show ?thesis
      by (intro exI[of _ islands] exI[of _ s] exI[of _ "Extracted k recipe iid response"]) simp
  qed
next
  case (Extracted k recipe iid response)
  from ok i Extracted have k: "k < length islands" by (auto simp: list_all_length)
  show ?thesis
  proof (cases "register_recipe (islands ! k) s recipe iid response")
    case (Inl e)
    from step_register_raises[OF i Extracted k Inl] Extracted
    show ?thesis by (intro exI[of _ islands] exI[of _ s] exI[of _ "Failed e"]) simp
  next
    case (Inr p)
    obtain self' s' where p: "p = (self', s')" by (cases p) auto
    from step_register[OF i Extracted k Inr[unfolded p]] Extracted
    show ?thesis
      by (intro exI[of _ "islands[k := self']"] exI[of _ s'] exI[of _ Done]) simp
  qed
next
  case Done
  with nf show ?thesis by simp
next
  case (Failed e)
  with nf show ?thesis by simp
qed

lemma complete_run_exists:
  assumes "list_all (task_ok (length islands)) ts"
  shows "\<exists>islands' s' ts'. step\<^sup>*\<^sup>* (islands, s, ts) (islands', s', ts') \<and> list_all finished ts'"
  using assms
proof (induction "sum_list (map steps_left ts)" arbitrary: islands s ts rule: less_induct)
  case less
  show ?case
  proof (cases "list_all finished ts")
    case True
    then show ?thesis by blast
  next
    case False
    from unfinished_task[OF False] obtain i where i: "i < length ts" "\<not> finished (ts ! i)"
      by blast
    from task_can_step[OF i less.prems, of s] obtain islands1 s1 t where
      st: "step (islands, s, ts) (islands1, s1, ts[i := t])"
      and dec: "steps_left t < steps_left (ts ! i)"
      and okt: "task_ok (length islands) t"
      and len: "length islands1 = length islands" by blast
    have m: "sum_list (map steps_left (ts[i := t])) < sum_list (map steps_left ts)"
      using steps_left_update[OF i(1), of t] dec by arith
    have ok1: "list_all (task_ok (length islands1)) (ts[i := t])"
      unfolding len by (rule list_all_update[OF less.prems okt])
    from less.hyps[OF m ok1, of s1] obtain islands' s' ts' where
      "step\<^sup>*\<^sup>* (islands1, s1, ts[i := t]) (islands', s', ts')" "list_all finished ts'"
      by blast
    with st show ?thesis by (meson converse_rtranclp_into_rtranclp)
  qed
qed

theorem interleaved_registrations_store_size_witness:
  "\<exists>islands' s' ts'.
     step\<^sup>*\<^sup>* ([Island 0, Island 1], initial_state,
              [Pending 0 (PStr sample_program) 0 (sample_response (PFloat (Fin 4))),
               Pending 1 (PStr no_ingredients_program) 1 (sample_response (PFloat (Fin 4))),
               Pending 1 (PStr sample_program) 1 (sample_response (PFloat (Fin 4)))])
            (islands', s', ts') \<and>
     list_all finished ts' \<and> length (store_rows s') = 2"
proof -
  define ts where "ts =
              [Pending 0 (PStr sample_program) 0 (sample_response (PFloat (Fin 4))),
               Pending 1 (PStr no_ingredients_program) 1 (sample_response (PFloat (Fin 4))),
               Pending 1 (PStr sample_program) 1 (sample_response (PFloat (Fin 4)))]"
  have ok: "list_all (task_ok (length [Island 0, Island 1])) ts" by (simp add: ts_def)
  from complete_run_exists[OF ok, of initial_state] obtain islands' s' ts' where
    run: "step\<^sup>*\<^sup>* ([Island 0, Island 1], initial_state, ts) (islands', s', ts')"
    and fin: "list_all finished ts'" by blast
  have p1: "registers_alone (PStr sample_program) 0 (sample_response (PFloat (Fin 4)))"
    by code_simp
  have p2: "\<not> registers_alone (PStr no_ingredients_program) (Suc 0)
              (sample_response (PFloat (Fin 4)))"
    by code_simp
  have p3: "registers_alone (PStr sample_program) (Suc 0) (sample_response (PFloat (Fin 4)))"
    by code_simp
  have "length (filter passes ts) = 2" by (simp add: ts_def p1 p2 p3)
  with interleaved_registrations_store_size[OF run fin]
  have "length (store_rows s') = 2" by (simp add: store_rows_initial)
  with run fin show ?thesis unfolding ts_def by blast
qed

section \<open>Claims about \<open>rank_programs\<close>\<close>





















text \<open>The weighted score that the evaluator computes is finite.\<close>

lemma numeric_in_range_finite: "numeric_in_range v = Some f \<Longrightarrow> \<exists>x. f = Fin x"
proof (cases v)
  case (JFloat g)
  assume "numeric_in_range v = Some f"
  with JFloat show ?thesis by (cases g) (auto split: if_splits)
qed (auto split: if_splits)

lemma finite_values_tier1:
  "finite_values sc \<Longrightarrow>
   finite_values (foldl (\<lambda>sc key. case d key of
                            None \<Rightarrow> sc
                          | Some v \<Rightarrow> (case numeric_in_range v of
                                         None \<Rightarrow> sc
                                       | Some f \<Rightarrow> sc(key \<mapsto> f))) sc ks)"
proof (induction ks arbitrary: sc)
  case Nil
  then show ?case by simp
next
  case (Cons k ks)
  have "finite_values (case d k of None \<Rightarrow> sc
                          | Some v \<Rightarrow> (case numeric_in_range v of
                                         None \<Rightarrow> sc
                                       | Some f \<Rightarrow> sc(k \<mapsto> f)))"
    using Cons.prems numeric_in_range_finite
    by (fastforce simp: finite_values_def split: option.splits)
  from Cons.IH[OF this] show ?case by simp
qed

lemma finite_values_fill_missing:
  "finite_values sc \<Longrightarrow> finite_values (fill_missing search sc)"
proof -
  have "finite_values sc \<Longrightarrow>
        finite_values (foldl (\<lambda>sc key. case search key of
                        None \<Rightarrow> sc
                      | Some g \<Rightarrow> if sc key = None then sc(key \<mapsto> py_float g) else sc) sc ks)"
    for ks
  proof (induction ks arbitrary: sc)
    case Nil
    then show ?case by simp
  next
    case (Cons k ks)
    have "finite_values (case search k of
                        None \<Rightarrow> sc
                      | Some g \<Rightarrow> if sc k = None then sc(k \<mapsto> py_float g) else sc)"
      using Cons.prems
      by (auto simp: finite_values_def py_float_def Let_def split: option.splits)
    from Cons.IH[OF this] show ?case by simp
  qed
  then show "finite_values sc \<Longrightarrow> finite_values (fill_missing search sc)"
    by (simp add: fill_missing_def)
qed

lemma weighted_sum_finite:
  assumes "finite_values sc"
  shows "\<exists>x. py_round2 (foldl fadd (Fin 0)
           (map (\<lambda>(key, w). fmul (case sc key of None \<Rightarrow> Fin 0 | Some f \<Rightarrow> f) (Fin w)) ws)) =
           Fin x"
proof -
  define g where "g = (\<lambda>key. case sc key of None \<Rightarrow> (0::real) | Some (Fin x) \<Rightarrow> x | _ \<Rightarrow> 0)"
  have e: "(case sc key of None \<Rightarrow> Fin 0 | Some f \<Rightarrow> f) = Fin (g key)" for key
  proof (cases "sc key")
    case None
    then show ?thesis by (simp add: g_def)
  next
    case (Some f)
    with assms obtain x where "f = Fin x" by (auto simp: finite_values_def)
    with Some show ?thesis by (simp add: g_def)
  qed
  have "map (\<lambda>(key, w). fmul (case sc key of None \<Rightarrow> Fin 0 | Some f \<Rightarrow> f) (Fin w)) ws =
        map Fin (map (\<lambda>(key, w). g key * w) ws)"
    by (simp add: e case_prod_unfold)
  then have "foldl fadd (Fin 0)
           (map (\<lambda>(key, w). fmul (case sc key of None \<Rightarrow> Fin 0 | Some f \<Rightarrow> f) (Fin w)) ws) =
           Fin (0 + sum_list (map (\<lambda>(key, w). g key * w) ws))"
    by (simp only: foldl_fadd_Fin)
  then show ?thesis by (simp only: py_round2.simps) blast
qed

lemma extract_scores_weighted_finite:
  "\<exists>x. resp_weighted_score (extract_scores_from_response jl t iid) = Some (PFloat (Fin x))"
proof -
  have e: "finite_values Map.empty" by (simp add: finite_values_def)
  have "\<exists>sc. finite_values sc \<and>
          resp_weighted_score (extract_scores_from_response jl t iid) =
            Some (PFloat (py_round2 (foldl fadd (Fin 0)
              (map (\<lambda>(key, w). fmul (case sc key of None \<Rightarrow> Fin 0 | Some f \<Rightarrow> f) (Fin w))
                 weights))))"
    unfolding extract_scores_from_response_def Let_def
    by (rule exI, rule conjI[rotated], simp)
       (auto intro!: finite_values_fill_missing finite_values_tier1 e split: option.splits)
  then show ?thesis using weighted_sum_finite by fastforce
qed

end
